theory Spec2Isabelle
  imports Main
begin

section \<open>The data model (types.ts, constants.ts)\<close>

text \<open>
  \<^verbatim>\<open>export type CellStatus = 'empty' | 'filled' | 'junk';\<close>
\<close>

datatype CellStatus = Empty | Filled | Junk

text \<open>
  \<^verbatim>\<open>interface Coordinate { x: number; y: number; }\<close>
  The fields are called \<open>coord_x\<close> and \<open>coord_y\<close>, so that \<open>x\<close> and \<open>y\<close> stay
  free for variables. Offsets and anchors are integers (they may be negative). A
  JavaScript number is a double; the model uses \<open>int\<close> and rounds the results of the
  source's arithmetic (\<open>roundDouble\<close> below). (The \<open>-0\<close> that \<open>-cell.y\<close> yields for
  \<open>0\<close> behaves as \<open>0\<close> in every comparison, sum and truthiness test of the source.)
\<close>

record Coordinate =
  coord_x :: int
  coord_y :: int

text \<open>
  \<^verbatim>\<open>interface CellData { id: string; status: CellStatus; color?: string; blockId?: string; }\<close>
  An optional field is an \<open>option\<close>: \<open>None\<close> is JavaScript's \<open>undefined\<close>.
\<close>

record CellData =
  cell_id :: string
  status :: CellStatus
  color :: "string option"
  blockId :: "string option"

text \<open>
  \<^verbatim>\<open>interface BlockDefinition { id: string; cells: Coordinate[]; color: string; basePoints?: number; }\<close>
\<close>

record BlockDefinition =
  block_id :: string
  cells :: "Coordinate list"
  block_color :: string
  basePoints :: "int option"

text \<open>The grid is an array of rows: \<open>grid[y][x]\<close> is \<open>grid ! y ! x\<close>.\<close>

type_synonym Grid = "CellData list list"

definition GRID_SIZE :: nat where
  "GRID_SIZE = 6"

definition JUNK_COLOR :: string where
  "JUNK_COLOR = ''#475569''"

text \<open>
  JavaScript numbers are IEEE doubles. On integers, every \<open>+\<close>, \<open>-\<close> and \<open>*\<close> of the
  source returns the exact result rounded to the nearest double, ties to the even
  significand. Integers up to magnitude \<open>2^53\<close> are doubles; above, the doubles are
  the multiples of \<open>spacing\<close>, the power of two that leaves 53 significant bits.
  (From magnitude \<open>2^1024\<close> on the source yields \<open>Infinity\<close>, which is not
  represented: every statement below about a computed number bounds its operands.)
\<close>

function spacing :: "int \<Rightarrow> int" where
  "spacing m = (if m < 9007199254740992 then 1 else 2 * spacing (m div 2))"
  by pat_completeness auto

termination
  by (relation "measure nat") auto

declare spacing.simps [simp del]

definition roundDouble :: "int \<Rightarrow> int" where
  "roundDouble n =
     (let m = \<bar>n\<bar>;
          q = spacing m;
          d = m div q;
          r = m mod q;
          k = (if 2 * r < q then d
               else if q < 2 * r then d + 1
               else if even d then d else d + 1)
      in sgn n * (k * q))"

definition js_add :: "int \<Rightarrow> int \<Rightarrow> int" where
  "js_add a b = roundDouble (a + b)"

definition js_sub :: "int \<Rightarrow> int \<Rightarrow> int" where
  "js_sub a b = roundDouble (a - b)"

definition js_mul :: "int \<Rightarrow> int \<Rightarrow> int" where
  "js_mul a b = roundDouble (a * b)"

text \<open>
  What the source does at an index outside an array. Reading a property of \<open>undefined\<close>
  throws a \<open>TypeError\<close>. Writing \<open>row[x] = v\<close> with \<open>x\<close> outside the row throws nothing:
  JavaScript grows the array (leaving holes) or, for a negative \<open>x\<close>, adds a property
  that is no element. Rows with holes are not represented here, so the model stops
  there with \<open>OutsideRow\<close>.
\<close>

datatype error = TypeError | OutsideRow

text \<open>
  The value of \<open>grid[y][x]\<close> where the source goes on to read a property of it
  (\<open>grid[y][x].status\<close>): \<open>None\<close> when \<open>grid[y]\<close> or \<open>grid[y][x]\<close> is \<open>undefined\<close>,
  where that read throws.
\<close>

definition cellAt :: "Grid \<Rightarrow> int \<Rightarrow> int \<Rightarrow> CellData option" where
  "cellAt grid x y =
     (if 0 \<le> y \<and> y < int (length grid) \<and> 0 \<le> x \<and> x < int (length (grid ! nat y))
      then Some (grid ! nat y ! nat x) else None)"

text \<open>A board as \<open>createEmptyGrid\<close> makes it: \<open>GRID_SIZE\<close> rows of \<open>GRID_SIZE\<close> cells.\<close>

definition wf_grid :: "Grid \<Rightarrow> bool" where
  "wf_grid grid \<longleftrightarrow> length grid = GRID_SIZE \<and> list_all (\<lambda>row. length row = GRID_SIZE) grid"

section \<open>Placement validity (gameLogic.ts, canPlaceBlock)\<close>

text \<open>
  The loop \<open>for (const cell of block.cells)\<close> with its two early returns. The sum
  \<open>targetX + cell.x\<close> is written unrounded: rounding is monotone and leaves the
  integers \<open>-1\<close> to \<open>6\<close> unchanged, so it alters neither the bounds test nor a
  coordinate that passes it.
\<close>

fun canPlaceBlock_cells :: "Grid \<Rightarrow> Coordinate list \<Rightarrow> int \<Rightarrow> int \<Rightarrow> error + bool" where
  "canPlaceBlock_cells grid [] targetX targetY = Inr True"
| "canPlaceBlock_cells grid (cell # rest) targetX targetY =
     (let x = targetX + coord_x cell;
          y = targetY + coord_y cell
      in if x < 0 \<or> x \<ge> int GRID_SIZE \<or> y < 0 \<or> y \<ge> int GRID_SIZE then Inr False
         else (case cellAt grid x y of
                 None \<Rightarrow> Inl TypeError
               | Some c \<Rightarrow>
                   if status c \<noteq> Empty then Inr False
                   else canPlaceBlock_cells grid rest targetX targetY))"

definition canPlaceBlock :: "Grid \<Rightarrow> BlockDefinition \<Rightarrow> int \<Rightarrow> int \<Rightarrow> error + bool" where
  "canPlaceBlock grid block targetX targetY =
     canPlaceBlock_cells grid (cells block) targetX targetY"

section \<open>Rotation (gameLogic.ts, rotateBlockDefinition)\<close>

text \<open>
  \<open>Math.min(...vs)\<close> of a non-empty array, given as its first element and the rest.
  (Of an empty array it is \<open>Infinity\<close>; then no cell is mapped, see below.)
\<close>

definition math_min :: "int \<Rightarrow> int list \<Rightarrow> int" where
  "math_min v vs = fold min vs v"

text \<open>
  The comparator \<^verbatim>\<open>(a, b) => (a.y - b.y) || (a.x - b.x)\<close>: the difference of the
  \<open>y\<close>s unless it is \<open>0\<close> (falsy), then the difference of the \<open>x\<close>s.
\<close>

definition compareCells :: "Coordinate \<Rightarrow> Coordinate \<Rightarrow> int" where
  "compareCells a b =
     (if js_sub (coord_y a) (coord_y b) \<noteq> 0 then js_sub (coord_y a) (coord_y b)
      else js_sub (coord_x a) (coord_x b))"

text \<open>
  \<open>Array.prototype.sort\<close> is stable; it is modelled by a stable insertion sort with
  the comparator (the comparator is \<open>0\<close> on equal coordinates only, so any correct
  sort gives the same array).
\<close>

fun insertCell :: "Coordinate \<Rightarrow> Coordinate list \<Rightarrow> Coordinate list" where
  "insertCell a [] = [a]"
| "insertCell a (b # bs) =
     (if compareCells a b \<le> 0 then a # b # bs else b # insertCell a bs)"

definition sortCells :: "Coordinate list \<Rightarrow> Coordinate list" where
  "sortCells cs = foldr insertCell cs []"

definition rotateBlockDefinition :: "BlockDefinition \<Rightarrow> BlockDefinition" where
  "rotateBlockDefinition block =
     (let rotatedCells =
            map (\<lambda>cell. \<lparr>coord_x = - coord_y cell, coord_y = coord_x cell\<rparr>) (cells block)
      in case rotatedCells of
           [] \<Rightarrow> block\<lparr>cells := []\<rparr>
         | c # cs \<Rightarrow>
             let minX = math_min (coord_x c) (map coord_x cs);
                 minY = math_min (coord_y c) (map coord_y cs);
                 normalizedCells =
                   map (\<lambda>cell. \<lparr>coord_x = js_sub (coord_x cell) minX,
                                 coord_y = js_sub (coord_y cell) minY\<rparr>)
                     rotatedCells
             in block\<lparr>cells := sortCells normalizedCells\<rparr>)"

section \<open>Move availability (gameLogic.ts, canPlaceAny and canPlaceInAnyOrientation)\<close>







section \<open>Placement, clear and leftover (gameLogic.ts, placeBlockAndProcess)\<close>

record PlacementResult =
  newGrid :: Grid
  linesCleared :: nat
  junkCreated :: nat
  points :: int
  newCombo :: int

text \<open>
  Step 1, \<^verbatim>\<open>currentGrid.map(row => row.map(cell => ({ ...cell })))\<close>, copies the board;
  as a value the copy is the board itself (the copy as fresh arrays and objects is the
  subject of the store model below).

  Step 2: the object written at a stamped coordinate,
  \<^verbatim>\<open>{ ...newGrid[y][x], status: 'filled', color: block.color, blockId: block.id }\<close>.
\<close>

definition stampCell :: "BlockDefinition \<Rightarrow> CellData \<Rightarrow> CellData" where
  "stampCell block c =
     c\<lparr>status := Filled, color := Some (block_color block), blockId := Some (block_id block)\<rparr>"

text \<open>
  The loop of step 2. \<open>newGrid[y]\<close> outside the board is \<open>undefined\<close> and the access
  \<open>newGrid[y][x]\<close> throws; a write outside the row does not throw (see \<open>error\<close>).
\<close>

fun placeCells :: "Grid \<Rightarrow> BlockDefinition \<Rightarrow> Coordinate list \<Rightarrow> int \<Rightarrow> int \<Rightarrow> error + Grid" where
  "placeCells grid block [] targetX targetY = Inr grid"
| "placeCells grid block (cell # rest) targetX targetY =
     (let x = targetX + coord_x cell;
          y = targetY + coord_y cell
      in if y < 0 \<or> int (length grid) \<le> y then Inl TypeError
         else if x < 0 \<or> int (length (grid ! nat y)) \<le> x then Inl OutsideRow
         else placeCells
                (grid[nat y := (grid ! nat y)[nat x := stampCell block (grid ! nat y ! nat x)]])
                block rest targetX targetY)"

text \<open>Step 3: \<^verbatim>\<open>newGrid[y].every(cell => cell.status !== 'empty')\<close>.\<close>

definition rowIsFull :: "CellData list \<Rightarrow> bool" where
  "rowIsFull row = list_all (\<lambda>cell. status cell \<noteq> Empty) row"

text \<open>The loop over the rows; \<open>newGrid[y]\<close> of a missing row is \<open>undefined\<close>.\<close>

fun findFullRows :: "Grid \<Rightarrow> nat list \<Rightarrow> error + nat list" where
  "findFullRows grid [] = Inr []"
| "findFullRows grid (y # ys) =
     (if length grid \<le> y then Inl TypeError
      else (case findFullRows grid ys of
              Inl e \<Rightarrow> Inl e
            | Inr fullRows \<Rightarrow> Inr (if rowIsFull (grid ! y) then y # fullRows else fullRows)))"

text \<open>
  \<^verbatim>\<open>newGrid.every(row => row[x].status !== 'empty')\<close>: row after row, stopping at the
  first \<open>false\<close>; \<open>row[x]\<close> outside the row is \<open>undefined\<close>.
\<close>

fun colIsFull :: "Grid \<Rightarrow> nat \<Rightarrow> error + bool" where
  "colIsFull [] x = Inr True"
| "colIsFull (row # rows) x =
     (if length row \<le> x then Inl TypeError
      else if status (row ! x) \<noteq> Empty then colIsFull rows x
      else Inr False)"

fun findFullCols :: "Grid \<Rightarrow> nat list \<Rightarrow> error + nat list" where
  "findFullCols grid [] = Inr []"
| "findFullCols grid (x # xs) =
     (case colIsFull grid x of
        Inl e \<Rightarrow> Inl e
      | Inr isFull \<Rightarrow>
          (case findFullCols grid xs of
             Inl e \<Rightarrow> Inl e
           | Inr fullCols \<Rightarrow> Inr (if isFull then x # fullCols else fullCols)))"

text \<open>
  Step 4: \<^verbatim>\<open>if (cell.blockId) affectedBlockIds.add(cell.blockId)\<close>. The test is
  JavaScript's truthiness: \<open>undefined\<close> and the empty string are both falsy.
\<close>

definition addBlockId :: "CellData \<Rightarrow> string set \<Rightarrow> string set" where
  "addBlockId cell ids =
     (case blockId cell of
        None \<Rightarrow> ids
      | Some b \<Rightarrow> if b = [] then ids else insert b ids)"

definition affectedBlockIds :: "Grid \<Rightarrow> nat list \<Rightarrow> nat list \<Rightarrow> string set" where
  "affectedBlockIds grid fullRows fullCols =
     fold (\<lambda>x ids. fold (\<lambda>row ids. addBlockId (row ! x) ids) grid ids) fullCols
       (fold (\<lambda>y ids. fold addBlockId (grid ! y) ids) fullRows {})"

text \<open>
  Step 5: the set \<open>clearedCells\<close>. The source keys it by the string
  \<^verbatim>\<open>`${x},${y}`\<close>, which determines the pair \<open>(x, y)\<close>; the model keeps the pair.
\<close>

definition clearedCells :: "nat list \<Rightarrow> nat list \<Rightarrow> (nat \<times> nat) set" where
  "clearedCells fullRows fullCols =
     fold (\<lambda>x cs. fold (\<lambda>y cs. insert (x, y) cs) [0..<GRID_SIZE] cs) fullCols
       (fold (\<lambda>y cs. fold (\<lambda>x cs. insert (x, y) cs) [0..<GRID_SIZE] cs) fullRows {})"

record Update =
  u_x :: nat
  u_y :: nat
  u_status :: CellStatus
  u_color :: "string option"

text \<open>
  The body of the double loop over the grid: the accumulator is the array \<open>updates\<close>
  and the counter \<open>junkCreated\<close>.
\<close>

definition visitCell ::
  "CellData \<Rightarrow> nat \<Rightarrow> nat \<Rightarrow> (nat \<times> nat) set \<Rightarrow> string set \<Rightarrow> Update list \<times> nat \<Rightarrow> Update list \<times> nat" where
  "visitCell cell x y cleared affected acc =
     (let isComputableLine = (x, y) \<in> cleared
      in if status cell = Junk then acc
         else if status cell = Filled then
           (if isComputableLine then
              (fst acc @ [\<lparr>u_x = x, u_y = y, u_status = Empty, u_color = None\<rparr>], snd acc)
            else if (case blockId cell of None \<Rightarrow> False | Some b \<Rightarrow> b \<noteq> [] \<and> b \<in> affected) then
              (fst acc @ [\<lparr>u_x = x, u_y = y, u_status = Junk, u_color = Some JUNK_COLOR\<rparr>],
               Suc (snd acc))
            else acc)
         else acc)"

fun scanRow ::
  "Grid \<Rightarrow> (nat \<times> nat) set \<Rightarrow> string set \<Rightarrow> nat \<Rightarrow> nat list \<Rightarrow> Update list \<times> nat
     \<Rightarrow> error + Update list \<times> nat" where
  "scanRow grid cleared affected y [] acc = Inr acc"
| "scanRow grid cleared affected y (x # xs) acc =
     (case cellAt grid (int x) (int y) of
        None \<Rightarrow> Inl TypeError
      | Some cell \<Rightarrow> scanRow grid cleared affected y xs (visitCell cell x y cleared affected acc))"

fun scanGrid ::
  "Grid \<Rightarrow> (nat \<times> nat) set \<Rightarrow> string set \<Rightarrow> nat list \<Rightarrow> Update list \<times> nat
     \<Rightarrow> error + Update list \<times> nat" where
  "scanGrid grid cleared affected [] acc = Inr acc"
| "scanGrid grid cleared affected (y # ys) acc =
     (case scanRow grid cleared affected y [0..<GRID_SIZE] acc of
        Inl e \<Rightarrow> Inl e
      | Inr acc' \<Rightarrow> scanGrid grid cleared affected ys acc')"

text \<open>
  \<^verbatim>\<open>newGrid[u.y][u.x] = { ...newGrid[u.y][u.x], status: u.status, color: u.color, blockId: undefined }\<close>
  (the coordinates of an update are those of a cell that was read, so inside the grid).
\<close>

definition applyUpdate :: "Update \<Rightarrow> Grid \<Rightarrow> Grid" where
  "applyUpdate u grid =
     grid[u_y u := (grid ! u_y u)[u_x u :=
       (grid ! u_y u ! u_x u)\<lparr>status := u_status u, color := u_color u, blockId := None\<rparr>]]"

text \<open>
  The scoring of the branch \<open>linesCleared > 0\<close>, each operation rounded as the
  source's double arithmetic rounds it.
\<close>

definition comboAfterClear :: "nat \<Rightarrow> int \<Rightarrow> int" where
  "comboAfterClear junk currentCombo = (if junk = 0 then js_add currentCombo 1 else 0)"

definition pointsAfterClear :: "nat \<Rightarrow> nat \<Rightarrow> int \<Rightarrow> int" where
  "pointsAfterClear lines junk combo =
     (let points = js_add 0 (js_mul (int lines) 100);
          points = (if junk = 0 then js_add points (js_mul 50 (int lines)) else points);
          points = (if combo > 1 then js_add points (js_mul (js_sub combo 1) 100) else points)
      in points)"

text \<open>
  The function. The parameter \<open>currentCombo\<close> has the default value \<open>0\<close> in the
  source; the model takes the value that is passed. (In the branch without a clear,
  \<open>block.cells.length * 10\<close> is exact: an array has fewer than \<open>2^32\<close> elements.)
\<close>

definition placeBlockAndProcess ::
  "Grid \<Rightarrow> BlockDefinition \<Rightarrow> int \<Rightarrow> int \<Rightarrow> int \<Rightarrow> error + PlacementResult" where
  "placeBlockAndProcess currentGrid block targetX targetY currentCombo =
     (case placeCells currentGrid block (cells block) targetX targetY of
        Inl e \<Rightarrow> Inl e
      | Inr stamped \<Rightarrow>
     (case findFullRows stamped [0..<GRID_SIZE] of
        Inl e \<Rightarrow> Inl e
      | Inr fullRows \<Rightarrow>
     (case findFullCols stamped [0..<GRID_SIZE] of
        Inl e \<Rightarrow> Inl e
      | Inr fullCols \<Rightarrow>
          let lines = length fullRows + length fullCols
          in if lines > 0 then
               (case scanGrid stamped (clearedCells fullRows fullCols)
                       (affectedBlockIds stamped fullRows fullCols) [0..<GRID_SIZE] ([], 0) of
                  Inl e \<Rightarrow> Inl e
                | Inr (updates, junk) \<Rightarrow>
                    Inr \<lparr>newGrid = fold applyUpdate updates stamped,
                         linesCleared = lines,
                         junkCreated = junk,
                         points = pointsAfterClear lines junk (comboAfterClear junk currentCombo),
                         newCombo = comboAfterClear junk currentCombo\<rparr>)
             else
               Inr \<lparr>newGrid = stamped,
                    linesCleared = lines,
                    junkCreated = 0,
                    points = 0 + int (length (cells block)) * 10,
                    newCombo = 0\<rparr>)))"

section \<open>The empty board (constants.ts, createEmptyGrid)\<close>

text \<open>The decimal digits of a number, for the cell ids \<^verbatim>\<open>`cell-${x}-${y}`\<close>.\<close>

fun decimal :: "nat \<Rightarrow> string" where
  "decimal n =
     (if n < 10 then [''0123456789'' ! n]
      else decimal (n div 10) @ [''0123456789'' ! (n mod 10)])"

declare decimal.simps [simp del]

definition createEmptyGrid :: Grid where
  "createEmptyGrid =
     map (\<lambda>y. map (\<lambda>x. \<lparr>cell_id = ''cell-'' @ decimal x @ ''-'' @ decimal y,
                        status = Empty, color = None, blockId = None\<rparr>)
                [0..<GRID_SIZE])
         [0..<GRID_SIZE]"

section \<open>The store: arrays and objects with identity\<close>

text \<open>
  To state that the function returns fresh arrays and objects and writes to nothing
  that existed before, boards are also modelled in a store. An address is an index
  into the list of allocated values; allocation appends. A cell object is never
  written by the source (an update builds a new object with a spread), a row array
  is written in place by \<^verbatim>\<open>newGrid[y][x] = ...\<close>.
\<close>

datatype hobj = Obj CellData | Arr "nat list"

type_synonym heap = "hobj list"

definition lookupObj :: "heap \<Rightarrow> nat \<Rightarrow> CellData option" where
  "lookupObj h a =
     (if a < length h then (case h ! a of Obj c \<Rightarrow> Some c | Arr xs \<Rightarrow> None) else None)"

definition lookupArr :: "heap \<Rightarrow> nat \<Rightarrow> nat list option" where
  "lookupArr h a =
     (if a < length h then (case h ! a of Obj c \<Rightarrow> None | Arr xs \<Rightarrow> Some xs) else None)"

text \<open>The board value held at an address: an array of arrays of cell objects.\<close>

definition readRow :: "heap \<Rightarrow> nat \<Rightarrow> CellData list option" where
  "readRow h r =
     (case lookupArr h r of None \<Rightarrow> None | Some cs \<Rightarrow> those (map (lookupObj h) cs))"

definition readGrid :: "heap \<Rightarrow> nat \<Rightarrow> Grid option" where
  "readGrid h g =
     (case lookupArr h g of None \<Rightarrow> None | Some rs \<Rightarrow> those (map (readRow h) rs))"

text \<open>All addresses a board consists of: the outer array, the row arrays, the cells.\<close>

definition gridAddrs :: "heap \<Rightarrow> nat \<Rightarrow> nat list" where
  "gridAddrs h g =
     (case lookupArr h g of
        None \<Rightarrow> [g]
      | Some rs \<Rightarrow>
          g # rs @ concat (map (\<lambda>r. case lookupArr h r of None \<Rightarrow> [] | Some cs \<Rightarrow> cs) rs))"

text \<open>
  Step 1, \<^verbatim>\<open>currentGrid.map(row => row.map(cell => ({ ...cell })))\<close>: a new object for
  every cell, a new array for every row, a new outer array. (A store in which the
  board is not an array of arrays of cell objects is outside the types of the
  program; the model answers \<open>TypeError\<close> there.)
\<close>

fun copyCells :: "heap \<Rightarrow> nat list \<Rightarrow> error + (nat list \<times> heap)" where
  "copyCells h [] = Inr ([], h)"
| "copyCells h (c # cs) =
     (case lookupObj h c of
        None \<Rightarrow> Inl TypeError
      | Some d \<Rightarrow>
          (case copyCells (h @ [Obj d]) cs of
             Inl e \<Rightarrow> Inl e
           | Inr (as, h') \<Rightarrow> Inr (length h # as, h')))"

fun copyRows :: "heap \<Rightarrow> nat list \<Rightarrow> error + (nat list \<times> heap)" where
  "copyRows h [] = Inr ([], h)"
| "copyRows h (r # rs) =
     (case lookupArr h r of
        None \<Rightarrow> Inl TypeError
      | Some cs \<Rightarrow>
          (case copyCells h cs of
             Inl e \<Rightarrow> Inl e
           | Inr (as, h1) \<Rightarrow>
               (case copyRows (h1 @ [Arr as]) rs of
                  Inl e \<Rightarrow> Inl e
                | Inr (ras, h2) \<Rightarrow> Inr (length h1 # ras, h2))))"

definition copyGrid :: "heap \<Rightarrow> nat \<Rightarrow> error + (nat \<times> heap)" where
  "copyGrid h g =
     (case lookupArr h g of
        None \<Rightarrow> Inl TypeError
      | Some rs \<Rightarrow>
          (case copyRows h rs of
             Inl e \<Rightarrow> Inl e
           | Inr (ras, h') \<Rightarrow> Inr (length h', h' @ [Arr ras])))"

text \<open>
  \<^verbatim>\<open>newGrid[y][x] = { ...newGrid[y][x], ... }\<close>: a new object, built from the old one by
  \<open>f\<close>, is allocated and the row array \<open>newGrid[y]\<close> is written in place at \<open>x\<close>.
\<close>

definition writeCell :: "heap \<Rightarrow> nat \<Rightarrow> int \<Rightarrow> int \<Rightarrow> (CellData \<Rightarrow> CellData) \<Rightarrow> error + heap" where
  "writeCell h g x y f =
     (case lookupArr h g of
        None \<Rightarrow> Inl TypeError
      | Some rs \<Rightarrow>
          if y < 0 \<or> int (length rs) \<le> y then Inl TypeError
          else (case lookupArr h (rs ! nat y) of
                  None \<Rightarrow> Inl TypeError
                | Some cs \<Rightarrow>
                    if x < 0 \<or> int (length cs) \<le> x then Inl OutsideRow
                    else (case lookupObj h (cs ! nat x) of
                            None \<Rightarrow> Inl TypeError
                          | Some old \<Rightarrow>
                              Inr ((h @ [Obj (f old)])
                                     [rs ! nat y := Arr (cs[nat x := length h])]))))"

fun store_placeCells ::
  "heap \<Rightarrow> nat \<Rightarrow> BlockDefinition \<Rightarrow> Coordinate list \<Rightarrow> int \<Rightarrow> int \<Rightarrow> error + heap" where
  "store_placeCells h g block [] targetX targetY = Inr h"
| "store_placeCells h g block (cell # rest) targetX targetY =
     (case writeCell h g (targetX + coord_x cell) (targetY + coord_y cell) (stampCell block) of
        Inl e \<Rightarrow> Inl e
      | Inr h' \<Rightarrow> store_placeCells h' g block rest targetX targetY)"

fun store_applyUpdates :: "heap \<Rightarrow> nat \<Rightarrow> Update list \<Rightarrow> error + heap" where
  "store_applyUpdates h g [] = Inr h"
| "store_applyUpdates h g (u # us) =
     (case writeCell h g (int (u_x u)) (int (u_y u))
             (\<lambda>c. c\<lparr>status := u_status u, color := u_color u, blockId := None\<rparr>) of
        Inl e \<Rightarrow> Inl e
      | Inr h' \<Rightarrow> store_applyUpdates h' g us)"

text \<open>
  The function on the store. It returns the address of \<open>newGrid\<close> with the four
  numbers of the result, and the store it leaves. Steps 3 to 5 only read \<open>newGrid\<close>;
  they are the functions above, applied to the board that \<open>newGrid\<close> holds.
\<close>

definition placeBlockAndProcess_store ::
  "heap \<Rightarrow> nat \<Rightarrow> BlockDefinition \<Rightarrow> int \<Rightarrow> int \<Rightarrow> int
     \<Rightarrow> error + ((nat \<times> nat \<times> nat \<times> int \<times> int) \<times> heap)" where
  "placeBlockAndProcess_store h currentGrid block targetX targetY currentCombo =
     (case copyGrid h currentGrid of
        Inl e \<Rightarrow> Inl e
      | Inr (g, h1) \<Rightarrow>
     (case store_placeCells h1 g block (cells block) targetX targetY of
        Inl e \<Rightarrow> Inl e
      | Inr h2 \<Rightarrow>
     (case readGrid h2 g of
        None \<Rightarrow> Inl TypeError
      | Some stamped \<Rightarrow>
     (case findFullRows stamped [0..<GRID_SIZE] of
        Inl e \<Rightarrow> Inl e
      | Inr fullRows \<Rightarrow>
     (case findFullCols stamped [0..<GRID_SIZE] of
        Inl e \<Rightarrow> Inl e
      | Inr fullCols \<Rightarrow>
          let lines = length fullRows + length fullCols
          in if lines > 0 then
               (case scanGrid stamped (clearedCells fullRows fullCols)
                       (affectedBlockIds stamped fullRows fullCols) [0..<GRID_SIZE] ([], 0) of
                  Inl e \<Rightarrow> Inl e
                | Inr (updates, junk) \<Rightarrow>
                    (case store_applyUpdates h2 g updates of
                       Inl e \<Rightarrow> Inl e
                     | Inr h3 \<Rightarrow>
                         Inr ((g, lines, junk,
                               pointsAfterClear lines junk (comboAfterClear junk currentCombo),
                               comboAfterClear junk currentCombo), h3)))
             else
               Inr ((g, lines, 0, 0 + int (length (cells block)) * 10, 0), h2))))))"

section \<open>Reachable boards\<close>

text \<open>
  The boards a game can reach: the empty board, and the result of a placement that
  \<open>canPlaceBlock\<close> accepts on a board already reached (with any shape, anchor and
  combo counter).
\<close>

inductive reachable :: "Grid \<Rightarrow> bool" where
  reachable_empty: "reachable createEmptyGrid"
| reachable_place:
    "reachable grid \<Longrightarrow> canPlaceBlock grid block targetX targetY = Inr True \<Longrightarrow>
     placeBlockAndProcess grid block targetX targetY combo = Inr r \<Longrightarrow>
     reachable (newGrid r)"

section \<open>Notions used in the statements and proofs\<close>

text \<open>
  The condition the specification gives for a legal placement: every absolute
  coordinate is inside the board and the cell there is empty.
\<close>

definition placeable :: "Grid \<Rightarrow> Coordinate list \<Rightarrow> int \<Rightarrow> int \<Rightarrow> bool" where
  "placeable grid cs targetX targetY \<longleftrightarrow>
     (\<forall>c \<in> set cs.
        0 \<le> targetX + coord_x c \<and> targetX + coord_x c < int GRID_SIZE \<and>
        0 \<le> targetY + coord_y c \<and> targetY + coord_y c < int GRID_SIZE \<and>
        status (grid ! nat (targetY + coord_y c) ! nat (targetX + coord_x c)) = Empty)"

text \<open>
  The invariant of the specification's data model for a shape: the minimum \<open>x\<close> and
  the minimum \<open>y\<close> over the offsets are both \<open>0\<close>.
\<close>

definition normalized :: "Coordinate list \<Rightarrow> bool" where
  "normalized cs \<longleftrightarrow>
     cs \<noteq> [] \<and> Min (coord_x ` set cs) = 0 \<and> Min (coord_y ` set cs) = 0"

text \<open>
  Every offset, moved to the anchor, lies on the board.
\<close>

definition inBounds :: "Coordinate list \<Rightarrow> int \<Rightarrow> int \<Rightarrow> bool" where
  "inBounds cs targetX targetY \<longleftrightarrow>
     (\<forall>c \<in> set cs.
        0 \<le> targetX + coord_x c \<and> targetX + coord_x c < int GRID_SIZE \<and>
        0 \<le> targetY + coord_y c \<and> targetY + coord_y c < int GRID_SIZE)"

text \<open>
  The coordinate \<open>(x, y)\<close> is one of the stamped coordinates (anchor plus offset).
\<close>

definition covered :: "Coordinate list \<Rightarrow> int \<Rightarrow> int \<Rightarrow> nat \<Rightarrow> nat \<Rightarrow> bool" where
  "covered cs targetX targetY x y \<longleftrightarrow>
     (\<exists>c \<in> set cs. targetX + coord_x c = int x \<and> targetY + coord_y c = int y)"

text \<open>
  The full rows and the full columns of a 6 by 6 board, as lists of indices.
\<close>

definition fullRowsOf :: "Grid \<Rightarrow> nat list" where
  "fullRowsOf grid = filter (\<lambda>y. rowIsFull (grid ! y)) [0..<GRID_SIZE]"

definition fullColsOf :: "Grid \<Rightarrow> nat list" where
  "fullColsOf grid =
     filter (\<lambda>x. list_all (\<lambda>row. status (row ! x) \<noteq> Empty) grid) [0..<GRID_SIZE]"

text \<open>
  The test \<^verbatim>\<open>cell.blockId && affectedBlockIds.has(cell.blockId)\<close>.
\<close>

definition ownerAffected :: "CellData \<Rightarrow> string set \<Rightarrow> bool" where
  "ownerAffected cell affected \<longleftrightarrow>
     (case blockId cell of None \<Rightarrow> False | Some b \<Rightarrow> b \<noteq> [] \<and> b \<in> affected)"

text \<open>
  The cell at \<open>(x, y)\<close> is one the clear phase turns into junk.
\<close>

definition becomesJunk :: "CellData \<Rightarrow> nat \<Rightarrow> nat \<Rightarrow> (nat \<times> nat) set \<Rightarrow> string set \<Rightarrow> bool" where
  "becomesJunk cell x y cleared affected \<longleftrightarrow>
     status cell = Filled \<and> (x, y) \<notin> cleared \<and> ownerAffected cell affected"

text \<open>
  The updates the scan pushes for one cell (none or one), and the cell after they
  are applied.
\<close>

definition cellUpdates :: "CellData \<Rightarrow> nat \<Rightarrow> nat \<Rightarrow> (nat \<times> nat) set \<Rightarrow> string set \<Rightarrow> Update list" where
  "cellUpdates cell x y cleared affected =
     (if status cell = Filled \<and> (x, y) \<in> cleared
        then [\<lparr>u_x = x, u_y = y, u_status = Empty, u_color = None\<rparr>]
      else if becomesJunk cell x y cleared affected
        then [\<lparr>u_x = x, u_y = y, u_status = Junk, u_color = Some JUNK_COLOR\<rparr>]
      else [])"

definition cellAfterClear :: "CellData \<Rightarrow> nat \<Rightarrow> nat \<Rightarrow> (nat \<times> nat) set \<Rightarrow> string set \<Rightarrow> CellData" where
  "cellAfterClear cell x y cleared affected =
     (if status cell = Filled \<and> (x, y) \<in> cleared
        then cell\<lparr>status := Empty, color := None, blockId := None\<rparr>
      else if becomesJunk cell x y cleared affected
        then cell\<lparr>status := Junk, color := Some JUNK_COLOR, blockId := None\<rparr>
      else cell)"

text \<open>
  The updates and the junk count the scan contributes for row \<open>y\<close>.
\<close>

definition rowUpdates :: "Grid \<Rightarrow> nat \<Rightarrow> (nat \<times> nat) set \<Rightarrow> string set \<Rightarrow> Update list" where
  "rowUpdates grid y cleared affected =
     concat (map (\<lambda>x. cellUpdates (grid ! y ! x) x y cleared affected) [0..<GRID_SIZE])"

definition rowJunk :: "Grid \<Rightarrow> nat \<Rightarrow> (nat \<times> nat) set \<Rightarrow> string set \<Rightarrow> nat" where
  "rowJunk grid y cleared affected =
     length (filter (\<lambda>x. becomesJunk (grid ! y ! x) x y cleared affected) [0..<GRID_SIZE])"

text \<open>Applying a list of updates, cell by cell.\<close>

definition updatesAt :: "Update list \<Rightarrow> nat \<Rightarrow> nat \<Rightarrow> Update list" where
  "updatesAt us x y = filter (\<lambda>u. u_x u = x \<and> u_y u = y) us"

text \<open>
  The truthy (defined and non-empty) \<open>blockId\<close>s of a list of cells.
\<close>

definition truthyIds :: "CellData list \<Rightarrow> string set" where
  "truthyIds cs = {b. b \<noteq> [] \<and> (\<exists>c \<in> set cs. blockId c = Some b)}"

text \<open>The pure summary of the function on a legal placement.\<close>

definition clearedOf :: "Grid \<Rightarrow> (nat \<times> nat) set" where
  "clearedOf grid = clearedCells (fullRowsOf grid) (fullColsOf grid)"

definition affectedOf :: "Grid \<Rightarrow> string set" where
  "affectedOf grid = affectedBlockIds grid (fullRowsOf grid) (fullColsOf grid)"

definition linesOf :: "Grid \<Rightarrow> nat" where
  "linesOf grid = length (fullRowsOf grid) + length (fullColsOf grid)"

definition junkOf :: "Grid \<Rightarrow> nat" where
  "junkOf grid =
     card {(x, y). x < GRID_SIZE \<and> y < GRID_SIZE \<and>
                   becomesJunk (grid ! y ! x) x y (clearedOf grid) (affectedOf grid)}"

text \<open>
  What a legal placement on a 6 by 6 board computes: the stamped board \<open>stamped\<close>
  and the result \<open>r\<close>.
\<close>

definition processed ::
  "Grid \<Rightarrow> BlockDefinition \<Rightarrow> int \<Rightarrow> int \<Rightarrow> int \<Rightarrow> Grid \<Rightarrow> PlacementResult \<Rightarrow> bool" where
  "processed grid b tx ty combo stamped r \<longleftrightarrow>
     wf_grid stamped \<and> wf_grid (newGrid r) \<and>
     (\<forall>x < GRID_SIZE. \<forall>y < GRID_SIZE.
        stamped ! y ! x =
          (if covered (cells b) tx ty x y then stampCell b (grid ! y ! x) else grid ! y ! x)) \<and>
     linesCleared r = linesOf stamped \<and>
     (linesOf stamped = 0 \<longrightarrow>
        newGrid r = stamped \<and> junkCreated r = 0 \<and> newCombo r = 0 \<and>
        points r = int (length (cells b)) * 10) \<and>
     (linesOf stamped > 0 \<longrightarrow>
        (\<forall>x < GRID_SIZE. \<forall>y < GRID_SIZE.
           newGrid r ! y ! x =
             cellAfterClear (stamped ! y ! x) x y (clearedOf stamped) (affectedOf stamped)) \<and>
        junkCreated r = junkOf stamped \<and>
        newCombo r = comboAfterClear (junkOf stamped) combo \<and>
        points r = pointsAfterClear (linesOf stamped) (junkOf stamped)
                     (comboAfterClear (junkOf stamped) combo))"

text \<open>
  The offsets after one rotation, as a set: rotate, then subtract the new minima.
\<close>

definition rotatedSet :: "Coordinate set \<Rightarrow> Coordinate set" where
  "rotatedSet S =
     (\<lambda>c. \<lparr>coord_x = - coord_y c - Min ((\<lambda>c. - coord_y c) ` S),
             coord_y = coord_x c - Min (coord_x ` S)\<rparr>) ` S"

text \<open>
  Any two offsets differ by at most \<open>2^53\<close> in each coordinate; all offsets have
  magnitude at most \<open>2^52\<close>.
\<close>

definition spanOK :: "Coordinate set \<Rightarrow> bool" where
  "spanOK S \<longleftrightarrow>
     (\<forall>c \<in> S. \<forall>c' \<in> S.
        \<bar>coord_x c - coord_x c'\<bar> \<le> 2 ^ 53 \<and> \<bar>coord_y c - coord_y c'\<bar> \<le> 2 ^ 53)"

definition boundedOffsets :: "Coordinate list \<Rightarrow> bool" where
  "boundedOffsets cs \<longleftrightarrow>
     (\<forall>c \<in> set cs. \<bar>coord_x c\<bar> \<le> 2 ^ 52 \<and> \<bar>coord_y c\<bar> \<le> 2 ^ 52)"

text \<open>
  On a 6 by 6 board, \<open>blockId\<close> is set exactly at the filled cells.
\<close>

definition ownerInv :: "Grid \<Rightarrow> bool" where
  "ownerInv grid \<longleftrightarrow>
     wf_grid grid \<and>
     (\<forall>x < GRID_SIZE. \<forall>y < GRID_SIZE.
        (blockId (grid ! y ! x) \<noteq> None) = (status (grid ! y ! x) = Filled))"

text \<open>
  The invariant of the new board while the function runs: the store extends the
  initial store \<open>h0\<close>; the outer array, the row arrays and the cell objects of the
  board at \<open>g\<close> were all allocated after \<open>h0\<close>; the row arrays are pairwise distinct and
  differ from the outer array; the board holds the value \<open>grid\<close>.
\<close>

definition freshGrid :: "heap \<Rightarrow> heap \<Rightarrow> nat \<Rightarrow> Grid \<Rightarrow> bool" where
  "freshGrid h0 h g grid \<longleftrightarrow>
     (\<exists>zs. h = h0 @ zs) \<and>
     (\<exists>rs. lookupArr h g = Some rs \<and> length h0 \<le> g \<and> g \<notin> set rs \<and> distinct rs \<and>
        list_all2
          (\<lambda>r row. length h0 \<le> r \<and>
             (\<exists>cs. lookupArr h r = Some cs \<and>
                list_all2 (\<lambda>c d. length h0 \<le> c \<and> lookupObj h c = Some d) cs row))
          rs grid)"

section \<open>Boards and shapes used as examples\<close>

definition emptyCell :: CellData where
  "emptyCell = \<lparr>cell_id = ''c'', status = Empty, color = None, blockId = None\<rparr>"

definition emptyBoard :: Grid where
  "emptyBoard = replicate 6 (replicate 6 emptyCell)"

definition domino :: BlockDefinition where
  "domino = \<lparr>block_id = ''d1'',
             cells = [\<lparr>coord_x = 0, coord_y = 0\<rparr>, \<lparr>coord_x = 1, coord_y = 0\<rparr>],
             block_color = ''#ef4444'', basePoints = None\<rparr>"

text \<open>
  A store that holds a 6 by 6 board: the 36 cell objects, then the 6 row arrays,
  then the outer array at address 42.
\<close>

definition boardStore :: "Grid \<Rightarrow> heap" where
  "boardStore grid =
     map Obj (concat grid) @ map (\<lambda>i. Arr [6 * i ..< 6 * i + 6]) [0..<6] @ [Arr [36..<42]]"

definition filledCell :: "string \<Rightarrow> CellData" where
  "filledCell b = \<lparr>cell_id = ''c'', status = Filled, color = Some ''#22c55e'', blockId = Some b\<rparr>"

definition junkCell :: CellData where
  "junkCell = \<lparr>cell_id = ''c'', status = Junk, color = Some ''#475569'', blockId = None\<rparr>"

definition dot :: BlockDefinition where
  "dot = \<lparr>block_id = ''p1'', cells = [\<lparr>coord_x = 0, coord_y = 0\<rparr>],
          block_color = ''#3b82f6'', basePoints = None\<rparr>"

definition vertical2 :: "string \<Rightarrow> BlockDefinition" where
  "vertical2 i = \<lparr>block_id = i, cells = [\<lparr>coord_x = 0, coord_y = 0\<rparr>, \<lparr>coord_x = 0, coord_y = 1\<rparr>],
          block_color = ''#3b82f6'', basePoints = None\<rparr>"

definition rowZeroBoard :: Grid where
  "rowZeroBoard =
     (replicate 5 (filledCell ''a'') @ [emptyCell]) # replicate 5 (replicate 6 emptyCell)"

definition junkRowBoard :: Grid where
  "junkRowBoard =
     (junkCell # replicate 4 (filledCell ''a'') @ [emptyCell]) # replicate 5 (replicate 6 emptyCell)"

definition lTromino :: BlockDefinition where
  "lTromino = \<lparr>block_id = ''t1'',
      cells = [\<lparr>coord_x = 1, coord_y = 0\<rparr>, \<lparr>coord_x = 0, coord_y = 1\<rparr>, \<lparr>coord_x = 1, coord_y = 1\<rparr>],
      block_color = ''#a855f7'', basePoints = None\<rparr>"


definition afterDomino :: Grid where
  "afterDomino =
     (case placeBlockAndProcess createEmptyGrid domino 0 0 0 of
        Inr r \<Rightarrow> newGrid r
      | Inl e \<Rightarrow> [])"

definition wideShape :: BlockDefinition where
  "wideShape = \<lparr>block_id = ''w1'',
      cells = [\<lparr>coord_x = 0, coord_y = 0\<rparr>, \<lparr>coord_x = 0, coord_y = 1\<rparr>,
               \<lparr>coord_x = 0, coord_y = 9007199254740994\<rparr>],
      block_color = ''#06b6d4'', basePoints = None\<rparr>"

section \<open>Facts about well-formed boards\<close>

lemma wf_grid_length: "wf_grid grid \<Longrightarrow> length grid = GRID_SIZE"
  by (simp add: wf_grid_def)

lemma wf_grid_row: "wf_grid grid \<Longrightarrow> y < GRID_SIZE \<Longrightarrow> length (grid ! y) = GRID_SIZE"
  by (simp add: wf_grid_def list_all_length)

lemma cellAt_wf:
  assumes "wf_grid grid" "0 \<le> x" "x < int GRID_SIZE" "0 \<le> y" "y < int GRID_SIZE"
  shows "cellAt grid x y = Some (grid ! nat y ! nat x)"
proof -
  have "nat y < GRID_SIZE" using assms by linarith
  then have "length (grid ! nat y) = GRID_SIZE"
    using assms(1) by (rule wf_grid_row [rotated])
  then show ?thesis
    using assms by (simp add: cellAt_def wf_grid_length)
qed

lemma wf_emptyBoard: "wf_grid emptyBoard"
  by (simp add: wf_grid_def emptyBoard_def GRID_SIZE_def list_all_iff)

section \<open>Placement legality is exact\<close>

lemma canPlaceBlock_cells_wf:
  "wf_grid grid \<Longrightarrow>
   canPlaceBlock_cells grid cs targetX targetY = Inr (placeable grid cs targetX targetY)"
proof (induction cs)
  case Nil
  then show ?case by (simp add: placeable_def)
next
  case (Cons c cs)
  let ?x = "targetX + coord_x c" and ?y = "targetY + coord_y c"
  show ?case
  proof (cases "?x < 0 \<or> ?x \<ge> int GRID_SIZE \<or> ?y < 0 \<or> ?y \<ge> int GRID_SIZE")
    case True
    then have "\<not> placeable grid (c # cs) targetX targetY"
      by (auto simp: placeable_def)
    with True show ?thesis by (simp add: Let_def)
  next
    case False
    then have "cellAt grid ?x ?y = Some (grid ! nat ?y ! nat ?x)"
      using Cons.prems by (intro cellAt_wf) auto
    moreover have "placeable grid (c # cs) targetX targetY \<longleftrightarrow>
        status (grid ! nat ?y ! nat ?x) = Empty \<and> placeable grid cs targetX targetY"
      using False by (auto simp: placeable_def)
    ultimately show ?thesis
      using False Cons.IH [OF Cons.prems] by (simp add: Let_def)
  qed
qed

text \<open>
  Claim C5. On every board of 6 rows of 6 cells, for every shape and every integer
  anchor, \<open>canPlaceBlock\<close> returns (without throwing) the truth value of: every offset
  cell, moved to the anchor, lies inside \<open>[0, 6)\<close> on both axes and the cell of the
  board at that coordinate has status \<open>empty\<close>. The function is a pure predicate: the
  board is only read.
\<close>

theorem canPlaceBlock_exact:
  "wf_grid grid \<Longrightarrow>
   canPlaceBlock grid block targetX targetY =
     Inr (\<forall>c \<in> set (cells block).
            0 \<le> targetX + coord_x c \<and> targetX + coord_x c < 6 \<and>
            0 \<le> targetY + coord_y c \<and> targetY + coord_y c < 6 \<and>
            status (grid ! nat (targetY + coord_y c) ! nat (targetX + coord_x c)) = Empty)"
  using canPlaceBlock_cells_wf [of grid "cells block" targetX targetY]
  by (simp add: canPlaceBlock_def placeable_def GRID_SIZE_def)

theorem canPlaceBlock_exact_witness:
  "wf_grid emptyBoard \<and> canPlaceBlock emptyBoard domino 4 0 = Inr True
   \<and> canPlaceBlock emptyBoard domino 5 0 = Inr False"
proof -
  have "canPlaceBlock emptyBoard domino 4 0 = Inr True"
    using canPlaceBlock_exact [OF wf_emptyBoard, of domino 4 0]
    by (simp add: domino_def emptyBoard_def emptyCell_def)
  moreover have "canPlaceBlock emptyBoard domino 5 0 = Inr False"
    using canPlaceBlock_exact [OF wf_emptyBoard, of domino 5 0]
    by (simp add: domino_def)
  ultimately show ?thesis
    using wf_emptyBoard by simp
qed

section \<open>Double arithmetic on integers up to \<open>2^53\<close>\<close>

lemma spacing_small: "m < 9007199254740992 \<Longrightarrow> spacing m = 1"
  by (subst spacing.simps) simp

lemma spacing_two53: "spacing 9007199254740992 = 2"
  by (subst spacing.simps) (simp add: spacing_small)

text \<open>
  An integer of magnitude at most \<open>2^53\<close> is a double: rounding leaves it unchanged,
  and an operation whose exact result is such an integer is exact.
\<close>

lemma roundDouble_exact:
  assumes "\<bar>n\<bar> \<le> 2 ^ 53"
  shows "roundDouble n = n"
proof (cases "\<bar>n\<bar> < 2 ^ 53")
  case True
  then have "spacing \<bar>n\<bar> = 1"
    by (intro spacing_small) simp
  then show ?thesis
    by (simp add: roundDouble_def Let_def sgn_mult_abs)
next
  case False
  with assms have n: "\<bar>n\<bar> = 9007199254740992" by simp
  then have "spacing \<bar>n\<bar> = 2" by (simp add: spacing_two53)
  with n have "roundDouble n = sgn n * \<bar>n\<bar>"
    by (simp add: roundDouble_def Let_def)
  then show ?thesis by (simp add: sgn_mult_abs)
qed

lemma js_add_exact: "\<bar>a + b\<bar> \<le> 2 ^ 53 \<Longrightarrow> js_add a b = a + b"
  by (simp add: js_add_def roundDouble_exact)

lemma js_sub_exact: "\<bar>a - b\<bar> \<le> 2 ^ 53 \<Longrightarrow> js_sub a b = a - b"
  by (simp add: js_sub_def roundDouble_exact)

lemma js_mul_exact: "\<bar>a * b\<bar> \<le> 2 ^ 53 \<Longrightarrow> js_mul a b = a * b"
  by (simp add: js_mul_def roundDouble_exact)

lemma roundDouble_ties:
  "roundDouble 9007199254740993 = 9007199254740992 \<and>
   roundDouble 9007199254740995 = 9007199254740996 \<and>
   roundDouble (- 9007199254740995) = - 9007199254740996"
  by code_simp

section \<open>Stamping and line detection\<close>

lemma placeable_inBounds: "placeable grid cs tx ty \<Longrightarrow> inBounds cs tx ty"
  by (auto simp: placeable_def inBounds_def)

lemma wf_grid_update:
  assumes "wf_grid grid" "y < GRID_SIZE"
  shows "wf_grid (grid[y := (grid ! y)[x := c]])"
  using assms
  by (auto simp: wf_grid_def list_all_length nth_list_update)

lemma nth_grid_update:
  assumes "wf_grid grid" "y0 < GRID_SIZE" "x0 < GRID_SIZE" "y < GRID_SIZE" "x < GRID_SIZE"
  shows "grid[y0 := (grid ! y0)[x0 := c]] ! y ! x = (if x = x0 \<and> y = y0 then c else grid ! y ! x)"
  using assms wf_grid_row [OF assms(1,2)]
  by (auto simp: wf_grid_length nth_list_update)

lemma stampCell_idem: "stampCell b (stampCell b c) = stampCell b c"
  by (simp add: stampCell_def)

lemma placeCells_wf:
  assumes "wf_grid grid" "inBounds cs tx ty"
  shows "\<exists>stamped. placeCells grid b cs tx ty = Inr stamped \<and> wf_grid stamped \<and>
           (\<forall>x < GRID_SIZE. \<forall>y < GRID_SIZE.
              stamped ! y ! x =
                (if covered cs tx ty x y then stampCell b (grid ! y ! x) else grid ! y ! x))"
  using assms
proof (induction cs arbitrary: grid)
  case Nil
  then show ?case by (simp add: covered_def)
next
  case (Cons c cs)
  let ?x = "tx + coord_x c" and ?y = "ty + coord_y c"
  let ?g = "grid[nat ?y := (grid ! nat ?y)[nat ?x := stampCell b (grid ! nat ?y ! nat ?x)]]"
  from Cons.prems have rng: "0 \<le> ?x" "?x < int GRID_SIZE" "0 \<le> ?y" "?y < int GRID_SIZE"
    and rest: "inBounds cs tx ty"
    by (auto simp: inBounds_def)
  have ny: "nat ?y < GRID_SIZE" and nx: "nat ?x < GRID_SIZE"
    using rng by linarith+
  have len: "length grid = GRID_SIZE" "length (grid ! nat ?y) = GRID_SIZE"
    using Cons.prems(1) ny by (simp_all add: wf_grid_length wf_grid_row)
  have step: "placeCells grid b (c # cs) tx ty = placeCells ?g b cs tx ty"
    using rng len by (simp add: Let_def)
  have wf': "wf_grid ?g"
    using Cons.prems(1) ny by (rule wf_grid_update)
  from Cons.IH [OF wf' rest] obtain stamped where
    st: "placeCells ?g b cs tx ty = Inr stamped" "wf_grid stamped"
    and pt: "\<forall>x < GRID_SIZE. \<forall>y < GRID_SIZE.
              stamped ! y ! x =
                (if covered cs tx ty x y then stampCell b (?g ! y ! x) else ?g ! y ! x)"
    by blast
  have "stamped ! y ! x =
          (if covered (c # cs) tx ty x y then stampCell b (grid ! y ! x) else grid ! y ! x)"
    if "x < GRID_SIZE" "y < GRID_SIZE" for x y
  proof -
    have g: "?g ! y ! x = (if x = nat ?x \<and> y = nat ?y then stampCell b (grid ! nat ?y ! nat ?x)
                           else grid ! y ! x)"
      using Cons.prems(1) ny nx that by (simp add: nth_grid_update)
    have cov: "covered (c # cs) tx ty x y \<longleftrightarrow> (x = nat ?x \<and> y = nat ?y) \<or> covered cs tx ty x y"
      using rng by (auto simp: covered_def)
    show ?thesis
      using pt that g cov by (auto simp: stampCell_idem)
  qed
  with st step show ?case by auto
qed

lemma findFullRows_wf:
  "wf_grid grid \<Longrightarrow> \<forall>y \<in> set ys. y < GRID_SIZE \<Longrightarrow>
   findFullRows grid ys = Inr (filter (\<lambda>y. rowIsFull (grid ! y)) ys)"
  by (induction ys) (auto simp: wf_grid_length)

lemma colIsFull_wf:
  "\<forall>row \<in> set rows. x < length row \<Longrightarrow>
   colIsFull rows x = Inr (list_all (\<lambda>row. status (row ! x) \<noteq> Empty) rows)"
  by (induction rows) auto

lemma findFullCols_wf:
  assumes "wf_grid grid" "\<forall>x \<in> set xs. x < GRID_SIZE"
  shows "findFullCols grid xs =
           Inr (filter (\<lambda>x. list_all (\<lambda>row. status (row ! x) \<noteq> Empty) grid) xs)"
  using assms(2)
proof (induction xs)
  case Nil
  then show ?case by simp
next
  case (Cons x xs)
  have "\<forall>row \<in> set grid. x < length row"
    using assms(1) Cons.prems by (auto simp: wf_grid_def list_all_iff)
  then have "colIsFull grid x = Inr (list_all (\<lambda>row. status (row ! x) \<noteq> Empty) grid)"
    by (rule colIsFull_wf)
  with Cons show ?case by simp
qed

lemma rowIsFull_wf:
  "wf_grid grid \<Longrightarrow> y < GRID_SIZE \<Longrightarrow>
   rowIsFull (grid ! y) \<longleftrightarrow> (\<forall>x < GRID_SIZE. status (grid ! y ! x) \<noteq> Empty)"
  by (simp add: rowIsFull_def list_all_length wf_grid_row)

lemma colFull_wf:
  "wf_grid grid \<Longrightarrow>
   list_all (\<lambda>row. status (row ! x) \<noteq> Empty) grid \<longleftrightarrow> (\<forall>y < GRID_SIZE. status (grid ! y ! x) \<noteq> Empty)"
  by (simp add: list_all_length wf_grid_length)

lemma set_fullRowsOf:
  "wf_grid grid \<Longrightarrow>
   set (fullRowsOf grid) = {y. y < GRID_SIZE \<and> (\<forall>x < GRID_SIZE. status (grid ! y ! x) \<noteq> Empty)}"
  by (auto simp: fullRowsOf_def rowIsFull_wf)

lemma set_fullColsOf:
  "wf_grid grid \<Longrightarrow>
   set (fullColsOf grid) = {x. x < GRID_SIZE \<and> (\<forall>y < GRID_SIZE. status (grid ! y ! x) \<noteq> Empty)}"
  by (auto simp: fullColsOf_def colFull_wf)

lemma length_fullRowsOf:
  "wf_grid grid \<Longrightarrow>
   length (fullRowsOf grid) = card {y. y < GRID_SIZE \<and> (\<forall>x < GRID_SIZE. status (grid ! y ! x) \<noteq> Empty)}"
  using distinct_card [of "fullRowsOf grid"] by (simp add: set_fullRowsOf) (simp add: fullRowsOf_def)

lemma length_fullColsOf:
  "wf_grid grid \<Longrightarrow>
   length (fullColsOf grid) = card {x. x < GRID_SIZE \<and> (\<forall>y < GRID_SIZE. status (grid ! y ! x) \<noteq> Empty)}"
  using distinct_card [of "fullColsOf grid"] by (simp add: set_fullColsOf) (simp add: fullColsOf_def)

section \<open>The scan of the grid and the updates\<close>

lemma visitCell_eq:
  "visitCell cell x y cleared affected acc =
     (fst acc @ cellUpdates cell x y cleared affected,
      snd acc + (if becomesJunk cell x y cleared affected then 1 else 0))"
  by (cases "status cell")
     (auto simp: visitCell_def cellUpdates_def becomesJunk_def ownerAffected_def Let_def)

lemma scanRow_wf:
  assumes "wf_grid grid" "y < GRID_SIZE"
  shows "\<forall>x \<in> set xs. x < GRID_SIZE \<Longrightarrow>
     scanRow grid cleared affected y xs acc =
       Inr (fst acc @ concat (map (\<lambda>x. cellUpdates (grid ! y ! x) x y cleared affected) xs),
            snd acc + length (filter (\<lambda>x. becomesJunk (grid ! y ! x) x y cleared affected) xs))"
proof (induction xs arbitrary: acc)
  case Nil
  then show ?case by simp
next
  case (Cons x xs)
  have "cellAt grid (int x) (int y) = Some (grid ! y ! x)"
    using cellAt_wf [OF assms(1), of "int x" "int y"] assms(2) Cons.prems by simp
  then show ?case
    using Cons by (simp add: visitCell_eq)
qed

lemma scanGrid_wf:
  assumes "wf_grid grid"
  shows "\<forall>y \<in> set ys. y < GRID_SIZE \<Longrightarrow>
     scanGrid grid cleared affected ys acc =
       Inr (fst acc @ concat (map (\<lambda>y. rowUpdates grid y cleared affected) ys),
            snd acc + sum_list (map (\<lambda>y. rowJunk grid y cleared affected) ys))"
proof (induction ys arbitrary: acc)
  case Nil
  then show ?case by simp
next
  case (Cons y ys)
  have "scanRow grid cleared affected y [0..<GRID_SIZE] acc =
          Inr (fst acc @ rowUpdates grid y cleared affected, snd acc + rowJunk grid y cleared affected)"
    using scanRow_wf [OF assms, of y "[0..<GRID_SIZE]"] Cons.prems
    by (simp add: rowUpdates_def rowJunk_def)
  then show ?case
    using Cons by (simp add: add.assoc)
qed

lemma applyUpdate_wf:
  "wf_grid grid \<Longrightarrow> u_y u < GRID_SIZE \<Longrightarrow> wf_grid (applyUpdate u grid)"
  unfolding applyUpdate_def by (rule wf_grid_update)

lemma applyUpdate_nth:
  assumes "wf_grid grid" "u_x u < GRID_SIZE" "u_y u < GRID_SIZE" "x < GRID_SIZE" "y < GRID_SIZE"
  shows "applyUpdate u grid ! y ! x =
           (if u_x u = x \<and> u_y u = y
            then (grid ! y ! x)\<lparr>status := u_status u, color := u_color u, blockId := None\<rparr>
            else grid ! y ! x)"
  unfolding applyUpdate_def
  using nth_grid_update [OF assms(1,3,2,5,4)] by auto

lemma fold_applyUpdate:
  assumes "wf_grid grid" "\<forall>u \<in> set us. u_x u < GRID_SIZE \<and> u_y u < GRID_SIZE"
  shows "wf_grid (fold applyUpdate us grid) \<and>
         (\<forall>x < GRID_SIZE. \<forall>y < GRID_SIZE.
            fold applyUpdate us grid ! y ! x =
              (if updatesAt us x y = [] then grid ! y ! x
               else (grid ! y ! x)\<lparr>status := u_status (last (updatesAt us x y)),
                                    color := u_color (last (updatesAt us x y)),
                                    blockId := None\<rparr>))"
  using assms(2)
proof (induction us rule: rev_induct)
  case Nil
  then show ?case using assms(1) by (simp add: updatesAt_def)
next
  case (snoc u us)
  then have IH: "wf_grid (fold applyUpdate us grid)"
    and IHp: "\<And>x y. x < GRID_SIZE \<Longrightarrow> y < GRID_SIZE \<Longrightarrow>
            fold applyUpdate us grid ! y ! x =
              (if updatesAt us x y = [] then grid ! y ! x
               else (grid ! y ! x)\<lparr>status := u_status (last (updatesAt us x y)),
                                    color := u_color (last (updatesAt us x y)),
                                    blockId := None\<rparr>)"
    and u: "u_x u < GRID_SIZE" "u_y u < GRID_SIZE"
    by auto
  have wf': "wf_grid (fold applyUpdate (us @ [u]) grid)"
    using IH u by (simp add: applyUpdate_wf)
  moreover have "fold applyUpdate (us @ [u]) grid ! y ! x =
              (if updatesAt (us @ [u]) x y = [] then grid ! y ! x
               else (grid ! y ! x)\<lparr>status := u_status (last (updatesAt (us @ [u]) x y)),
                                    color := u_color (last (updatesAt (us @ [u]) x y)),
                                    blockId := None\<rparr>)"
    if "x < GRID_SIZE" "y < GRID_SIZE" for x y
    using applyUpdate_nth [OF IH u that] IHp [OF that]
    by (auto simp: updatesAt_def)
  ultimately show ?case by blast
qed

lemma concat_map_single:
  "concat (map (\<lambda>i. if i = k then F i else []) [0..<n]) = (if k < n then F k else [])"
  by (induction n) auto

lemma updatesAt_cellUpdates:
  "updatesAt (cellUpdates cell x' y' cleared affected) x y =
     (if x' = x \<and> y' = y then cellUpdates cell x y cleared affected else [])"
  by (auto simp: updatesAt_def cellUpdates_def)

lemma updatesAt_rowUpdates:
  "x < GRID_SIZE \<Longrightarrow>
   updatesAt (rowUpdates grid y' cleared affected) x y =
     (if y' = y then cellUpdates (grid ! y ! x) x y cleared affected else [])"
proof -
  assume x: "x < GRID_SIZE"
  have "updatesAt (rowUpdates grid y' cleared affected) x y =
        concat (map (\<lambda>i. if i = x then (if y' = y then cellUpdates (grid ! y' ! i) i y cleared affected else []) else [])
                  [0..<GRID_SIZE])"
    unfolding rowUpdates_def updatesAt_def filter_concat map_map comp_def
    by (rule arg_cong [where f = concat], rule map_cong)
       (auto simp: cellUpdates_def)
  also have "\<dots> = (if y' = y then cellUpdates (grid ! y' ! x) x y cleared affected else [])"
    using x by (simp add: concat_map_single)
  finally show ?thesis by auto
qed

lemma updatesAt_gridUpdates:
  assumes "x < GRID_SIZE" "y < GRID_SIZE"
  shows "updatesAt (concat (map (\<lambda>y. rowUpdates grid y cleared affected) [0..<GRID_SIZE])) x y =
           cellUpdates (grid ! y ! x) x y cleared affected"
proof -
  have "updatesAt (concat (map (\<lambda>y. rowUpdates grid y cleared affected) [0..<GRID_SIZE])) x y =
        concat (map (\<lambda>j. if j = y then cellUpdates (grid ! j ! x) x j cleared affected else [])
                  [0..<GRID_SIZE])"
    using updatesAt_rowUpdates [OF assms(1), of grid _ cleared affected y]
    unfolding updatesAt_def filter_concat map_map comp_def
    by (intro arg_cong [where f = concat] map_cong) auto
  then show ?thesis
    using assms(2) by (simp add: concat_map_single)
qed

lemma gridUpdates_bounds:
  "\<forall>u \<in> set (concat (map (\<lambda>y. rowUpdates grid y cleared affected) [0..<GRID_SIZE])).
      u_x u < GRID_SIZE \<and> u_y u < GRID_SIZE"
  by (auto simp: rowUpdates_def cellUpdates_def split: if_splits)

lemma clear_pointwise:
  assumes "wf_grid grid" "x < GRID_SIZE" "y < GRID_SIZE"
  shows "fold applyUpdate (concat (map (\<lambda>y. rowUpdates grid y cleared affected) [0..<GRID_SIZE])) grid ! y ! x =
           cellAfterClear (grid ! y ! x) x y cleared affected"
  using fold_applyUpdate [OF assms(1) gridUpdates_bounds [of grid cleared affected]] assms(2,3)
  by (simp add: updatesAt_gridUpdates) (simp add: cellUpdates_def cellAfterClear_def)

lemma clear_wf:
  assumes "wf_grid grid"
  shows "wf_grid (fold applyUpdate (concat (map (\<lambda>y. rowUpdates grid y cleared affected) [0..<GRID_SIZE])) grid)"
  using fold_applyUpdate [OF assms gridUpdates_bounds [of grid cleared affected]] by simp

section \<open>The cleared cells and the affected blocks\<close>

lemma fold_insert_image: "fold (\<lambda>a S. insert (f a) S) xs S = S \<union> f ` set xs"
  by (induction xs arbitrary: S) auto

lemma fold_union: "fold (\<lambda>a S. S \<union> F a) xs S = S \<union> (\<Union>a \<in> set xs. F a)"
  by (induction xs arbitrary: S) auto

lemma clearedCells_eq:
  "clearedCells fullRows fullCols =
     {(x, y). x < GRID_SIZE \<and> y \<in> set fullRows} \<union> {(x, y). y < GRID_SIZE \<and> x \<in> set fullCols}"
  unfolding clearedCells_def fold_insert_image fold_union
  by auto

lemma fold_addBlockId: "fold addBlockId cs ids = ids \<union> truthyIds cs"
  by (induction cs arbitrary: ids)
     (auto simp: addBlockId_def truthyIds_def split: option.splits)

lemma fold_addBlockId_col:
  "fold (\<lambda>row ids. addBlockId (row ! x) ids) rows ids = ids \<union> truthyIds (map (\<lambda>row. row ! x) rows)"
  by (induction rows arbitrary: ids)
     (auto simp: addBlockId_def truthyIds_def split: option.splits)

lemma affectedBlockIds_eq:
  "affectedBlockIds grid fullRows fullCols =
     (\<Union>y \<in> set fullRows. truthyIds (grid ! y)) \<union>
     (\<Union>x \<in> set fullCols. truthyIds (map (\<lambda>row. row ! x) grid))"
  unfolding affectedBlockIds_def fold_addBlockId fold_addBlockId_col fold_union
  by simp

lemma affectedBlockIds_wf:
  assumes "wf_grid grid" "\<forall>y \<in> set fullRows. y < GRID_SIZE" "\<forall>x \<in> set fullCols. x < GRID_SIZE"
  shows "affectedBlockIds grid fullRows fullCols =
     {b. b \<noteq> [] \<and> (\<exists>(x, y) \<in> clearedCells fullRows fullCols. blockId (grid ! y ! x) = Some b)}"
    (is "?L = ?R")
proof -
  have rows: "truthyIds (grid ! y) = {b. b \<noteq> [] \<and> (\<exists>x < GRID_SIZE. blockId (grid ! y ! x) = Some b)}"
    if "y < GRID_SIZE" for y
    using wf_grid_row [OF assms(1) that]
    by (fastforce simp: truthyIds_def in_set_conv_nth)
  have cols: "truthyIds (map (\<lambda>row. row ! x) grid) =
                {b. b \<noteq> [] \<and> (\<exists>y < GRID_SIZE. blockId (grid ! y ! x) = Some b)}" for x
    using wf_grid_length [OF assms(1)]
    by (fastforce simp: truthyIds_def in_set_conv_nth)
  show ?thesis
    unfolding affectedBlockIds_eq clearedCells_eq cols
    using assms(2,3) by (auto simp: rows)
qed

lemma rowJunk_card:
  "rowJunk grid y cleared affected =
     card {x. x < GRID_SIZE \<and> becomesJunk (grid ! y ! x) x y cleared affected}"
proof -
  have "distinct (filter (\<lambda>x. becomesJunk (grid ! y ! x) x y cleared affected) [0..<GRID_SIZE])"
    by simp
  from distinct_card [OF this] show ?thesis
    by (simp add: rowJunk_def)
qed

lemma gridJunk_card:
  "sum_list (map (\<lambda>y. rowJunk grid y cleared affected) [0..<GRID_SIZE]) =
     card {(x, y). x < GRID_SIZE \<and> y < GRID_SIZE \<and> becomesJunk (grid ! y ! x) x y cleared affected}"
proof -
  let ?B = "\<lambda>y. {x. x < GRID_SIZE \<and> becomesJunk (grid ! y ! x) x y cleared affected}"
  have "sum_list (map (\<lambda>y. rowJunk grid y cleared affected) [0..<GRID_SIZE]) =
        (\<Sum>y \<in> {..<GRID_SIZE}. card (?B y))"
    by (simp add: interv_sum_list_conv_sum_set_nat rowJunk_card atLeast0LessThan)
  also have "\<dots> = card (SIGMA y:{..<GRID_SIZE}. ?B y)"
    by (simp add: card_SigmaI)
  also have "\<dots> = card (prod.swap ` (SIGMA y:{..<GRID_SIZE}. ?B y))"
    by (simp add: card_image)
  also have "prod.swap ` (SIGMA y:{..<GRID_SIZE}. ?B y) =
      {(x, y). x < GRID_SIZE \<and> y < GRID_SIZE \<and> becomesJunk (grid ! y ! x) x y cleared affected}"
    by (auto simp: image_iff)
  finally show ?thesis .
qed

section \<open>The result of a legal placement\<close>

lemma processed_wf:
  "processed grid b tx ty combo stamped r \<Longrightarrow> wf_grid stamped \<and> wf_grid (newGrid r)"
  by (simp add: processed_def)

lemma processed_stamped:
  "processed grid b tx ty combo stamped r \<Longrightarrow> x < GRID_SIZE \<Longrightarrow> y < GRID_SIZE \<Longrightarrow>
   stamped ! y ! x =
     (if covered (cells b) tx ty x y then stampCell b (grid ! y ! x) else grid ! y ! x)"
  by (simp add: processed_def)

lemma processed_lines:
  "processed grid b tx ty combo stamped r \<Longrightarrow> linesCleared r = linesOf stamped"
  by (simp add: processed_def)

lemma processed_no_clear:
  "processed grid b tx ty combo stamped r \<Longrightarrow> linesOf stamped = 0 \<Longrightarrow>
   newGrid r = stamped \<and> junkCreated r = 0 \<and> newCombo r = 0 \<and>
   points r = int (length (cells b)) * 10"
  by (simp add: processed_def)

lemma processed_clear_cell:
  "processed grid b tx ty combo stamped r \<Longrightarrow> linesOf stamped > 0 \<Longrightarrow>
   x < GRID_SIZE \<Longrightarrow> y < GRID_SIZE \<Longrightarrow>
   newGrid r ! y ! x =
     cellAfterClear (stamped ! y ! x) x y (clearedOf stamped) (affectedOf stamped)"
  by (simp add: processed_def)

lemma processed_clear_score:
  "processed grid b tx ty combo stamped r \<Longrightarrow> linesOf stamped > 0 \<Longrightarrow>
   junkCreated r = junkOf stamped \<and>
   newCombo r = comboAfterClear (junkOf stamped) combo \<and>
   points r = pointsAfterClear (linesOf stamped) (junkOf stamped)
                (comboAfterClear (junkOf stamped) combo)"
  by (simp add: processed_def)

lemma process_summary:
  assumes "wf_grid grid" "inBounds (cells b) tx ty"
  shows "\<exists>stamped r.
     placeCells grid b (cells b) tx ty = Inr stamped \<and>
     placeBlockAndProcess grid b tx ty combo = Inr r \<and>
     processed grid b tx ty combo stamped r"
proof -
  from placeCells_wf [OF assms, of b] obtain stamped where
    st: "placeCells grid b (cells b) tx ty = Inr stamped" and wf: "wf_grid stamped"
    and pt: "\<forall>x < GRID_SIZE. \<forall>y < GRID_SIZE.
              stamped ! y ! x =
                (if covered (cells b) tx ty x y then stampCell b (grid ! y ! x) else grid ! y ! x)"
    by blast
  have fr: "findFullRows stamped [0..<GRID_SIZE] = Inr (fullRowsOf stamped)"
    using findFullRows_wf [OF wf, of "[0..<GRID_SIZE]"] by (simp add: fullRowsOf_def)
  have fc: "findFullCols stamped [0..<GRID_SIZE] = Inr (fullColsOf stamped)"
    using findFullCols_wf [OF wf, of "[0..<GRID_SIZE]"] by (simp add: fullColsOf_def)
  let ?us = "concat (map (\<lambda>y. rowUpdates stamped y (clearedOf stamped) (affectedOf stamped)) [0..<GRID_SIZE])"
  have sc: "scanGrid stamped (clearedOf stamped) (affectedOf stamped) [0..<GRID_SIZE] ([], 0) =
              Inr (?us, junkOf stamped)"
    using scanGrid_wf [OF wf, of "[0..<GRID_SIZE]" "clearedOf stamped" "affectedOf stamped" "([], 0)"]
    by (simp add: gridJunk_card junkOf_def)
  show ?thesis
  proof (cases "linesOf stamped > 0")
    case True
    let ?r = "\<lparr>newGrid = fold applyUpdate ?us stamped,
               linesCleared = linesOf stamped,
               junkCreated = junkOf stamped,
               points = pointsAfterClear (linesOf stamped) (junkOf stamped)
                          (comboAfterClear (junkOf stamped) combo),
               newCombo = comboAfterClear (junkOf stamped) combo\<rparr>"
    have "placeBlockAndProcess grid b tx ty combo = Inr ?r"
      using True sc
      by (simp add: placeBlockAndProcess_def st fr fc Let_def linesOf_def clearedOf_def affectedOf_def)
    moreover have "wf_grid (newGrid ?r)"
      using clear_wf [OF wf] by simp
    moreover have "\<forall>x < GRID_SIZE. \<forall>y < GRID_SIZE.
           newGrid ?r ! y ! x =
             cellAfterClear (stamped ! y ! x) x y (clearedOf stamped) (affectedOf stamped)"
      using clear_pointwise [OF wf] by simp
    ultimately show ?thesis
      using st wf pt True by (intro exI [of _ stamped] exI [of _ ?r]) (simp add: processed_def)
  next
    case False
    let ?r = "\<lparr>newGrid = stamped, linesCleared = linesOf stamped, junkCreated = 0,
               points = 0 + int (length (cells b)) * 10, newCombo = 0\<rparr>"
    have "placeBlockAndProcess grid b tx ty combo = Inr ?r"
      using False
      by (simp add: placeBlockAndProcess_def st fr fc Let_def linesOf_def)
    then show ?thesis
      using st wf pt False by (intro exI [of _ stamped] exI [of _ ?r]) (simp add: processed_def)
  qed
qed

section \<open>Rotation\<close>

lemma set_insertCell: "set (insertCell a bs) = insert a (set bs)"
  by (induction bs) auto

lemma set_sortCells: "set (sortCells cs) = set cs"
  unfolding sortCells_def by (induction cs) (auto simp: set_insertCell)

lemma math_min_Min: "math_min v vs = Min (set (v # vs))"
  unfolding math_min_def by (simp only: Min.set_eq_fold)

lemma abs_diff_bound:
  fixes a b :: int
  assumes "\<bar>a\<bar> \<le> 2 ^ 52" "\<bar>b\<bar> \<le> 2 ^ 52"
  shows "\<bar>a - b\<bar> \<le> 2 ^ 53"
proof -
  have "(2::int) ^ 53 = 2 * 2 ^ 52" by simp
  with assms show ?thesis by linarith
qed

lemma boundedOffsets_spanOK: "boundedOffsets cs \<Longrightarrow> spanOK (set cs)"
  unfolding boundedOffsets_def spanOK_def
  by (blast intro: abs_diff_bound)

lemma rotate_cells:
  assumes "cells block \<noteq> []" and span: "spanOK (set (cells block))"
  shows "set (cells (rotateBlockDefinition block)) = rotatedSet (set (cells block))"
proof -
  from assms obtain c cs where cs: "cells block = c # cs"
    by (cases "cells block") auto
  let ?S = "set (cells block)"
  let ?r = "\<lambda>cell. \<lparr>coord_x = - coord_y cell, coord_y = coord_x cell\<rparr>"
  define mx where "mx = Min ((\<lambda>c. - coord_y c) ` ?S)"
  define my where "my = Min (coord_x ` ?S)"
  have mx: "math_min (coord_x (?r c)) (map coord_x (map ?r cs)) = mx"
    unfolding math_min_Min cs mx_def by (simp add: image_image)
  have my: "math_min (coord_y (?r c)) (map coord_y (map ?r cs)) = my"
    unfolding math_min_Min cs my_def by (simp add: image_image)
  have "mx \<in> (\<lambda>c. - coord_y c) ` ?S"
    unfolding mx_def using assms(1) by (intro Min_in) simp_all
  then obtain c1 where c1: "c1 \<in> ?S" "mx = - coord_y c1" by blast
  have "my \<in> coord_x ` ?S"
    unfolding my_def using assms(1) by (intro Min_in) simp_all
  then obtain c2 where c2: "c2 \<in> ?S" "my = coord_x c2" by blast
  have ex: "js_sub (- coord_y d) mx = - coord_y d - mx \<and> js_sub (coord_x d) my = coord_x d - my"
    if "d \<in> ?S" for d
  proof -
    have "\<bar>coord_y c1 - coord_y d\<bar> \<le> 2 ^ 53" "\<bar>coord_x d - coord_x c2\<bar> \<le> 2 ^ 53"
      using span that c1(1) c2(1) by (auto simp: spanOK_def)
    then show ?thesis
      unfolding c1(2) c2(2) by (simp add: js_sub_exact)
  qed
  have "cells (rotateBlockDefinition block) =
          sortCells (map (\<lambda>cell. \<lparr>coord_x = js_sub (coord_x cell) mx,
                                   coord_y = js_sub (coord_y cell) my\<rparr>)
                       (map ?r (cells block)))"
    using mx my unfolding rotateBlockDefinition_def Let_def cs by simp
  then have "set (cells (rotateBlockDefinition block)) =
      (\<lambda>d. \<lparr>coord_x = js_sub (- coord_y d) mx, coord_y = js_sub (coord_x d) my\<rparr>) ` ?S"
    by (simp add: set_sortCells image_image)
  also have "\<dots> = (\<lambda>d. \<lparr>coord_x = - coord_y d - mx, coord_y = coord_x d - my\<rparr>) ` ?S"
    by (rule image_cong) (simp_all add: ex)
  finally show ?thesis
    by (simp add: rotatedSet_def mx_def my_def)
qed

lemma rotatedSet_spanOK:
  assumes "spanOK S"
  shows "spanOK (rotatedSet S)"
  using assms unfolding spanOK_def rotatedSet_def
  by (auto simp: abs_minus_commute)

lemma rotate_nonempty:
  "cells block \<noteq> [] \<Longrightarrow> cells (rotateBlockDefinition block) \<noteq> []"
  by (cases "cells block")
     (auto simp: rotateBlockDefinition_def Let_def sortCells_def simp flip: set_empty
           dest!: arg_cong [where f = set] simp: set_insertCell)

lemma rotate_id_color:
  "block_id (rotateBlockDefinition block) = block_id block \<and>
   block_color (rotateBlockDefinition block) = block_color block \<and>
   basePoints (rotateBlockDefinition block) = basePoints block"
  by (simp add: rotateBlockDefinition_def Let_def split: list.splits)

lemma Min_shift:
  fixes A :: "int set"
  assumes "finite A" "A \<noteq> {}"
  shows "Min ((\<lambda>v. v + d) ` A) = Min A + d"
  using mono_Min_commute [of "\<lambda>v. v + d" A] assms by (simp add: mono_def)

lemma Coordinate_eta: "\<lparr>coord_x = coord_x c, coord_y = coord_y c\<rparr> = (c :: Coordinate)"
  by (cases c) simp

lemma rotatedSet_min:
  assumes "finite S" "S \<noteq> {}"
  shows "Min (coord_x ` rotatedSet S) = 0 \<and> Min (coord_y ` rotatedSet S) = 0"
proof -
  define mx where "mx = Min ((\<lambda>c. - coord_y c) ` S)"
  define my where "my = Min (coord_x ` S)"
  have "coord_x ` rotatedSet S = (\<lambda>v. v + (- mx)) ` ((\<lambda>c. - coord_y c) ` S)"
    by (simp add: rotatedSet_def image_image mx_def)
  then have "Min (coord_x ` rotatedSet S) = Min ((\<lambda>c. - coord_y c) ` S) + (- mx)"
    using assms by (simp only: Min_shift finite_imageI image_is_empty not_False_eq_True)
  moreover have "coord_y ` rotatedSet S = (\<lambda>v. v + (- my)) ` (coord_x ` S)"
    by (simp add: rotatedSet_def image_image my_def)
  then have "Min (coord_y ` rotatedSet S) = Min (coord_x ` S) + (- my)"
    using assms by (simp only: Min_shift finite_imageI image_is_empty not_False_eq_True)
  ultimately show ?thesis
    by (simp add: mx_def my_def)
qed

lemma rotatedSet_shift:
  "\<exists>dx dy. rotatedSet S = (\<lambda>c. \<lparr>coord_x = - coord_y c + dx, coord_y = coord_x c + dy\<rparr>) ` S"
  unfolding rotatedSet_def
  by (intro exI [of _ "- Min ((\<lambda>c. - coord_y c) ` S)"] exI [of _ "- Min (coord_x ` S)"]) simp

lemma rotatedSet_finite: "finite S \<Longrightarrow> finite (rotatedSet S)"
  by (simp add: rotatedSet_def)

lemma rotatedSet_nonempty: "S \<noteq> {} \<Longrightarrow> rotatedSet S \<noteq> {}"
  by (simp add: rotatedSet_def)

lemma rotatedSet_four:
  assumes "finite S" "S \<noteq> {}" "Min (coord_x ` S) = 0" "Min (coord_y ` S) = 0"
  shows "rotatedSet (rotatedSet (rotatedSet (rotatedSet S))) = (S :: Coordinate set)"
proof -
  let ?S1 = "rotatedSet S"
  let ?S2 = "rotatedSet ?S1"
  let ?S3 = "rotatedSet ?S2"
  let ?S4 = "rotatedSet ?S3"
  obtain a1 b1 where 1: "?S1 = (\<lambda>c. \<lparr>coord_x = - coord_y c + a1, coord_y = coord_x c + b1\<rparr>) ` S"
    using rotatedSet_shift [of S] by blast
  obtain a2 b2 where 2: "?S2 = (\<lambda>c. \<lparr>coord_x = - coord_y c + a2, coord_y = coord_x c + b2\<rparr>) ` ?S1"
    using rotatedSet_shift [of ?S1] by blast
  obtain a3 b3 where 3: "?S3 = (\<lambda>c. \<lparr>coord_x = - coord_y c + a3, coord_y = coord_x c + b3\<rparr>) ` ?S2"
    using rotatedSet_shift [of ?S2] by blast
  obtain a4 b4 where 4: "?S4 = (\<lambda>c. \<lparr>coord_x = - coord_y c + a4, coord_y = coord_x c + b4\<rparr>) ` ?S3"
    using rotatedSet_shift [of ?S3] by blast
  define D where "D = b1 - a2 - b3 + a4"
  define E where "E = - a1 - b2 + a3 + b4"
  have S4: "?S4 = (\<lambda>c. \<lparr>coord_x = coord_x c + D, coord_y = coord_y c + E\<rparr>) ` S"
    unfolding 4 unfolding 3 unfolding 2 unfolding 1
    by (simp add: image_image D_def E_def algebra_simps)
  have fin3: "finite ?S3" and ne3: "?S3 \<noteq> {}"
    using assms(1,2) by (simp_all add: rotatedSet_finite rotatedSet_nonempty)
  have min4: "Min (coord_x ` ?S4) = 0" "Min (coord_y ` ?S4) = 0"
    using rotatedSet_min [OF fin3 ne3] by simp_all
  have "coord_x ` ?S4 = (\<lambda>v. v + D) ` (coord_x ` S)" "coord_y ` ?S4 = (\<lambda>v. v + E) ` (coord_y ` S)"
    unfolding S4 by (simp_all add: image_image)
  then have "Min (coord_x ` ?S4) = Min (coord_x ` S) + D" "Min (coord_y ` ?S4) = Min (coord_y ` S) + E"
    using assms(1,2) by (simp_all add: Min_shift)
  with min4 assms(3,4) have "D = 0" "E = 0" by simp_all
  with S4 show ?thesis by (simp add: Coordinate_eta)
qed

text \<open>
  Claim C6, as amended. For every shape with a non-empty offset list whose offsets
  are integers of magnitude at most \<open>2^52\<close> (so that every difference the source
  computes is an integer a double holds exactly), the offsets of the rotated shape
  are the images of the offsets under \<open>(x, y) \<mapsto> (-y, x)\<close>, moved by the new minimum
  \<open>x\<close> and minimum \<open>y\<close>, so the minimum \<open>x\<close> and the minimum \<open>y\<close> of the result are
  both \<open>0\<close>; identifier and colour are unchanged; and for a shape of the data model
  (its offsets normalised: minimum \<open>x\<close> and minimum \<open>y\<close> both \<open>0\<close>), four rotations
  give back the original set of offsets.
\<close>

theorem rotate_properties:
  assumes "cells block \<noteq> []"
    and "\<forall>c \<in> set (cells block). \<bar>coord_x c\<bar> \<le> 2 ^ 52 \<and> \<bar>coord_y c\<bar> \<le> 2 ^ 52"
  shows "set (cells (rotateBlockDefinition block)) =
           (\<lambda>c. \<lparr>coord_x = - coord_y c - Min ((\<lambda>c. - coord_y c) ` set (cells block)),
                   coord_y = coord_x c - Min (coord_x ` set (cells block))\<rparr>) ` set (cells block)
         \<and> Min (coord_x ` set (cells (rotateBlockDefinition block))) = 0
         \<and> Min (coord_y ` set (cells (rotateBlockDefinition block))) = 0
         \<and> block_id (rotateBlockDefinition block) = block_id block
         \<and> block_color (rotateBlockDefinition block) = block_color block
         \<and> (normalized (cells block) \<longrightarrow>
              set (cells ((rotateBlockDefinition ^^ 4) block)) = set (cells block))"
proof -
  let ?S = "set (cells block)"
  have S: "finite ?S" "?S \<noteq> {}" using assms(1) by simp_all
  have s0: "spanOK ?S"
    using assms(2) by (intro boundedOffsets_spanOK) (simp add: boundedOffsets_def)
  have r1: "set (cells (rotateBlockDefinition block)) = rotatedSet ?S"
    using assms(1) s0 by (rule rotate_cells)
  have n1: "cells (rotateBlockDefinition block) \<noteq> []"
    using assms(1) by (rule rotate_nonempty)
  have s1: "spanOK (set (cells (rotateBlockDefinition block)))"
    unfolding r1 using s0 by (rule rotatedSet_spanOK)
  have r2: "set (cells (rotateBlockDefinition (rotateBlockDefinition block))) = rotatedSet (rotatedSet ?S)"
    using rotate_cells [OF n1 s1] r1 by simp
  have n2: "cells (rotateBlockDefinition (rotateBlockDefinition block)) \<noteq> []"
    using n1 by (rule rotate_nonempty)
  have s2: "spanOK (set (cells (rotateBlockDefinition (rotateBlockDefinition block))))"
    unfolding r2 using s0 by (intro rotatedSet_spanOK)
  have r3: "set (cells (rotateBlockDefinition (rotateBlockDefinition (rotateBlockDefinition block)))) =
              rotatedSet (rotatedSet (rotatedSet ?S))"
    using rotate_cells [OF n2 s2] r2 by simp
  have n3: "cells (rotateBlockDefinition (rotateBlockDefinition (rotateBlockDefinition block))) \<noteq> []"
    using n2 by (rule rotate_nonempty)
  have s3: "spanOK (set (cells (rotateBlockDefinition (rotateBlockDefinition (rotateBlockDefinition block)))))"
    unfolding r3 using s0 by (intro rotatedSet_spanOK)
  have r4: "set (cells ((rotateBlockDefinition ^^ 4) block)) =
              rotatedSet (rotatedSet (rotatedSet (rotatedSet ?S)))"
    using rotate_cells [OF n3 s3] r3 by (simp add: eval_nat_numeral)
  have four: "set (cells ((rotateBlockDefinition ^^ 4) block)) = ?S" if "normalized (cells block)"
    using that rotatedSet_four [OF S] r4 by (simp add: normalized_def)
  show ?thesis
    using r1 rotatedSet_min [OF S] rotate_id_color [of block] four
    by (simp add: rotatedSet_def)
qed

section \<open>Move availability\<close>

lemma canPlaceBlock_wf:
  "wf_grid grid \<Longrightarrow> canPlaceBlock grid block tx ty = Inr (placeable grid (cells block) tx ty)"
  by (simp add: canPlaceBlock_def canPlaceBlock_cells_wf)






section \<open>Scoring, line count and junk\<close>

lemma canPlace_inBounds:
  assumes "wf_grid grid" "canPlaceBlock grid block tx ty = Inr True"
  shows "inBounds (cells block) tx ty" and "placeable grid (cells block) tx ty"
  using assms by (simp_all add: canPlaceBlock_wf placeable_inBounds)

lemma canPlace_processed:
  assumes "wf_grid grid" "canPlaceBlock grid block tx ty = Inr True"
  shows "\<exists>stamped r.
     placeCells grid block (cells block) tx ty = Inr stamped \<and>
     placeBlockAndProcess grid block tx ty combo = Inr r \<and>
     processed grid block tx ty combo stamped r"
  using process_summary [OF assms(1) canPlace_inBounds(1) [OF assms]] .

lemma linesOf_le: "linesOf grid \<le> 12"
proof -
  have "length (fullRowsOf grid) \<le> 6" "length (fullColsOf grid) \<le> 6"
    using length_filter_le [of _ "[0..<GRID_SIZE]"]
    by (simp_all add: fullRowsOf_def fullColsOf_def GRID_SIZE_def le_trans)
  then show ?thesis by (simp add: linesOf_def)
qed

lemma scoring_exact:
  assumes c: "0 \<le> c" and L: "0 < L" and b: "100 * c + 150 * int L \<le> 2 ^ 53"
  shows "comboAfterClear j c = (if j = 0 then c + 1 else 0)"
    and "pointsAfterClear L j (comboAfterClear j c) =
           100 * int L + (if j = 0 then 50 * int L else 0)
           + (if comboAfterClear j c > 1 then (comboAfterClear j c - 1) * 100 else 0)"
proof -
  have l: "1 \<le> int L" using L by simp
  have P: "(2::int) ^ 53 = 9007199254740992" by simp
  have "\<bar>c + 1\<bar> \<le> 2 ^ 53"
    using c l b unfolding P by arith
  then have a1: "js_add c 1 = c + 1"
    by (rule js_add_exact)
  show combo: "comboAfterClear j c = (if j = 0 then c + 1 else 0)"
    by (simp add: comboAfterClear_def a1)
  have "\<bar>int L * 100\<bar> \<le> 2 ^ 53"
    using c l b unfolding P by arith
  then have m1: "js_mul (int L) 100 = int L * 100"
    by (rule js_mul_exact)
  have "\<bar>0 + int L * 100\<bar> \<le> 2 ^ 53"
    using c l b unfolding P by arith
  then have a2: "js_add 0 (int L * 100) = int L * 100"
    using js_add_exact [of 0 "int L * 100"] by simp
  have "\<bar>50 * int L\<bar> \<le> 2 ^ 53"
    using c l b unfolding P by arith
  then have m2: "js_mul 50 (int L) = 50 * int L"
    by (rule js_mul_exact)
  have "\<bar>int L * 100 + 50 * int L\<bar> \<le> 2 ^ 53"
    using c l b unfolding P by arith
  then have a3: "js_add (int L * 100) (50 * int L) = 150 * int L"
    using js_add_exact [of "int L * 100" "50 * int L"] by simp
  have "\<bar>c + 1 - 1\<bar> \<le> 2 ^ 53"
    using c l b unfolding P by arith
  then have s1: "js_sub (c + 1) 1 = c"
    using js_sub_exact [of "c + 1" 1] by simp
  have "\<bar>c * 100\<bar> \<le> 2 ^ 53"
    using c l b unfolding P by arith
  then have m3: "js_mul c 100 = c * 100"
    by (rule js_mul_exact)
  have "\<bar>150 * int L + c * 100\<bar> \<le> 2 ^ 53"
    using c l b unfolding P by arith
  then have a4: "js_add (150 * int L) (c * 100) = 150 * int L + c * 100"
    by (rule js_add_exact)
  have "\<bar>int L * 100 + c * 100\<bar> \<le> 2 ^ 53"
    using c l b unfolding P by arith
  then have a5: "js_add (int L * 100) (c * 100) = int L * 100 + c * 100"
    by (rule js_add_exact)
  show "pointsAfterClear L j (comboAfterClear j c) =
           100 * int L + (if j = 0 then 50 * int L else 0)
           + (if comboAfterClear j c > 1 then (comboAfterClear j c - 1) * 100 else 0)"
    unfolding combo
    by (simp add: pointsAfterClear_def Let_def m1 a2 m2 a3 s1 m3 a4 a5)
qed

text \<open>
  Claim C3, as amended. For every 6 by 6 board, shape and anchor accepted by
  \<open>canPlaceBlock\<close>, and every \<open>comboIn \<ge> 0\<close> with \<open>100 * comboIn + 1800 \<le> 2^53\<close> (every
  number of the scoring is then an integer that a double holds exactly; 1800 is 150
  points for each of at most 12 lines), \<open>placeBlockAndProcess\<close> returns a result \<open>r\<close>
  with: if \<open>linesCleared = 0\<close> then \<open>newCombo = 0\<close> and \<open>points\<close> is 10 times the number
  of offset cells of the shape; if \<open>linesCleared > 0\<close> then \<open>newCombo\<close> is
  \<open>comboIn + 1\<close> when \<open>junkCreated = 0\<close> and \<open>0\<close> otherwise, and \<open>points\<close> is
  \<open>100 * linesCleared\<close>, plus \<open>50 * linesCleared\<close> when \<open>junkCreated = 0\<close>, plus
  \<open>(newCombo - 1) * 100\<close> when \<open>newCombo > 1\<close>.
\<close>

theorem scoring_and_combo:
  assumes "wf_grid grid" "canPlaceBlock grid block tx ty = Inr True"
    "0 \<le> comboIn" "100 * comboIn + 1800 \<le> 2 ^ 53"
  shows "\<exists>r. placeBlockAndProcess grid block tx ty comboIn = Inr r \<and>
     (linesCleared r = 0 \<longrightarrow>
        newCombo r = 0 \<and> points r = 10 * int (length (cells block))) \<and>
     (linesCleared r > 0 \<longrightarrow>
        newCombo r = (if junkCreated r = 0 then comboIn + 1 else 0) \<and>
        points r = 100 * int (linesCleared r)
                   + (if junkCreated r = 0 then 50 * int (linesCleared r) else 0)
                   + (if newCombo r > 1 then (newCombo r - 1) * 100 else 0))"
proof -
  from canPlace_processed [OF assms(1,2), of comboIn]
  obtain stamped r where
    r: "placeBlockAndProcess grid block tx ty comboIn = Inr r"
    and pr: "processed grid block tx ty comboIn stamped r"
    by blast
  note l = processed_lines [OF pr]
  have "newCombo r = 0 \<and> points r = 10 * int (length (cells block))" if "linesCleared r = 0"
    using processed_no_clear [OF pr] that l by simp
  moreover have "newCombo r = (if junkCreated r = 0 then comboIn + 1 else 0) \<and>
        points r = 100 * int (linesCleared r)
                   + (if junkCreated r = 0 then 50 * int (linesCleared r) else 0)
                   + (if newCombo r > 1 then (newCombo r - 1) * 100 else 0)"
    if "linesCleared r > 0"
  proof -
    have L: "0 < linesOf stamped" using that l by simp
    have "int (linesOf stamped) \<le> 12" using linesOf_le [of stamped] by simp
    then have b: "100 * comboIn + 150 * int (linesOf stamped) \<le> 2 ^ 53"
      using assms(4) by linarith
    show ?thesis
      using processed_clear_score [OF pr L] scoring_exact [OF assms(3) L b, of "junkOf stamped"] l
      by simp
  qed
  ultimately show ?thesis
    using r by (intro exI [of _ r]) auto
qed

text \<open>
  Claim C4. For every 6 by 6 board, shape and anchor accepted by \<open>canPlaceBlock\<close>,
  \<open>linesCleared\<close> is the number of full rows plus the number of full columns of the
  board after stamping, where a row (a column) is full when none of its 6 cells has
  status \<open>empty\<close>: \<open>filled\<close> and \<open>junk\<close> both count.
\<close>

theorem linesCleared_counts_full_lines:
  assumes "wf_grid grid" "canPlaceBlock grid block tx ty = Inr True"
  shows "\<exists>stamped r.
     placeCells grid block (cells block) tx ty = Inr stamped \<and>
     placeBlockAndProcess grid block tx ty comboIn = Inr r \<and>
     linesCleared r =
       card {y. y < 6 \<and> (\<forall>x < 6. status (stamped ! y ! x) \<noteq> Empty)} +
       card {x. x < 6 \<and> (\<forall>y < 6. status (stamped ! y ! x) \<noteq> Empty)}"
proof -
  from canPlace_processed [OF assms(1,2), of comboIn]
  obtain stamped r where
    st: "placeCells grid block (cells block) tx ty = Inr stamped"
      "placeBlockAndProcess grid block tx ty comboIn = Inr r"
    and pr: "processed grid block tx ty comboIn stamped r"
    by blast
  have wf: "wf_grid stamped" using processed_wf [OF pr] by simp
  have "linesCleared r =
       card {y. y < 6 \<and> (\<forall>x < 6. status (stamped ! y ! x) \<noteq> Empty)} +
       card {x. x < 6 \<and> (\<forall>y < 6. status (stamped ! y ! x) \<noteq> Empty)}"
    using processed_lines [OF pr] length_fullRowsOf [OF wf] length_fullColsOf [OF wf]
    by (simp add: linesOf_def GRID_SIZE_def)
  with st show ?thesis by blast
qed

text \<open>
  Claim C2. For every 6 by 6 board, shape and anchor accepted by \<open>canPlaceBlock\<close>, a
  cell that is \<open>junk\<close> in the board after stamping is the same cell in the result, with
  status \<open>junk\<close>, whether or not it lies in a full row or column that is cleared; so a
  line that is full because of junk cells stays non-empty at those cells.
\<close>

theorem junk_survives_clear:
  assumes "wf_grid grid" "canPlaceBlock grid block tx ty = Inr True" "x < 6" "y < 6"
  shows "\<exists>stamped r.
     placeCells grid block (cells block) tx ty = Inr stamped \<and>
     placeBlockAndProcess grid block tx ty comboIn = Inr r \<and>
     (status (stamped ! y ! x) = Junk \<longrightarrow>
        newGrid r ! y ! x = stamped ! y ! x \<and> status (newGrid r ! y ! x) = Junk)"
proof -
  from canPlace_processed [OF assms(1,2), of comboIn]
  obtain stamped r where
    st: "placeCells grid block (cells block) tx ty = Inr stamped"
      "placeBlockAndProcess grid block tx ty comboIn = Inr r"
    and pr: "processed grid block tx ty comboIn stamped r"
    by blast
  have xy: "x < GRID_SIZE" "y < GRID_SIZE" using assms(3,4) by (simp_all add: GRID_SIZE_def)
  have "newGrid r ! y ! x = stamped ! y ! x" if "status (stamped ! y ! x) = Junk"
  proof (cases "linesOf stamped > 0")
    case True
    from processed_clear_cell [OF pr True xy] that show ?thesis
      by (simp add: cellAfterClear_def becomesJunk_def)
  next
    case False
    with processed_no_clear [OF pr] show ?thesis by simp
  qed
  with st show ?thesis by auto
qed

text \<open>The clear phase, cell by cell.\<close>

lemma clearedOf_wf:
  assumes "wf_grid g"
  shows "clearedOf g =
     {(x, y). x < 6 \<and> y < 6 \<and>
        ((\<forall>x' < 6. status (g ! y ! x') \<noteq> Empty) \<or> (\<forall>y' < 6. status (g ! y' ! x) \<noteq> Empty))}"
  unfolding clearedOf_def clearedCells_eq set_fullRowsOf [OF assms] set_fullColsOf [OF assms]
  by (auto simp: GRID_SIZE_def)

lemma affectedOf_wf:
  assumes "wf_grid g"
  shows "affectedOf g = {b. b \<noteq> [] \<and> (\<exists>(x, y) \<in> clearedOf g. blockId (g ! y ! x) = Some b)}"
  unfolding affectedOf_def clearedOf_def
  by (rule affectedBlockIds_wf [OF assms]) (simp_all add: fullRowsOf_def fullColsOf_def)

lemma becomesJunk_wf:
  assumes "wf_grid g"
  shows "becomesJunk c x y (clearedOf g) (affectedOf g) \<longleftrightarrow>
        status c = Filled \<and> (x, y) \<notin> clearedOf g \<and> (\<exists>b \<in> affectedOf g. blockId c = Some b)"
  by (auto simp: becomesJunk_def ownerAffected_def affectedOf_wf [OF assms] split: option.splits)

text \<open>
  The clear phase on a legal placement, exactly as the code performs it. With
  \<open>cleared\<close> the coordinates of the full rows and columns of the stamped board and
  \<open>affected\<close> the \<^emph>\<open>non-empty\<close> \<open>blockId\<close>s found at cleared coordinates: a filled cell
  at a cleared coordinate becomes empty, a filled cell elsewhere whose \<open>blockId\<close> is in
  \<open>affected\<close> becomes junk with the junk colour, both lose their \<open>blockId\<close>, every
  other cell is unchanged, and \<open>junkCreated\<close> counts the cells turned to junk.
\<close>

lemma clear_phase_cells:
  assumes "wf_grid grid" "canPlaceBlock grid block tx ty = Inr True"
  shows "\<exists>stamped r cleared affected toJunk.
     placeCells grid block (cells block) tx ty = Inr stamped \<and>
     placeBlockAndProcess grid block tx ty comboIn = Inr r \<and>
     cleared = {(x, y). x < 6 \<and> y < 6 \<and>
                  ((\<forall>x' < 6. status (stamped ! y ! x') \<noteq> Empty) \<or>
                   (\<forall>y' < 6. status (stamped ! y' ! x) \<noteq> Empty))} \<and>
     affected = {b. b \<noteq> [] \<and> (\<exists>(x, y) \<in> cleared. blockId (stamped ! y ! x) = Some b)} \<and>
     toJunk = (\<lambda>x y. status (stamped ! y ! x) = Filled \<and> (x, y) \<notin> cleared \<and>
                     (\<exists>b \<in> affected. blockId (stamped ! y ! x) = Some b)) \<and>
     (linesCleared r > 0 \<longrightarrow>
        (\<forall>x < 6. \<forall>y < 6.
           newGrid r ! y ! x =
             (if status (stamped ! y ! x) = Filled \<and> (x, y) \<in> cleared
                then (stamped ! y ! x)\<lparr>status := Empty, color := None, blockId := None\<rparr>
              else if toJunk x y
                then (stamped ! y ! x)\<lparr>status := Junk, color := Some JUNK_COLOR, blockId := None\<rparr>
              else stamped ! y ! x)) \<and>
        junkCreated r = card {(x, y). x < 6 \<and> y < 6 \<and> toJunk x y})"
proof -
  from canPlace_processed [OF assms(1,2), of comboIn]
  obtain stamped r where
    st: "placeCells grid block (cells block) tx ty = Inr stamped"
      "placeBlockAndProcess grid block tx ty comboIn = Inr r"
    and pr: "processed grid block tx ty comboIn stamped r"
    by blast
  have wf: "wf_grid stamped" using processed_wf [OF pr] by simp
  define toJunk where "toJunk = (\<lambda>x y. status (stamped ! y ! x) = Filled \<and> (x, y) \<notin> clearedOf stamped \<and>
                     (\<exists>b \<in> affectedOf stamped. blockId (stamped ! y ! x) = Some b))"
  have bj: "becomesJunk (stamped ! y ! x) x y (clearedOf stamped) (affectedOf stamped) = toJunk x y" for x y
    by (simp add: becomesJunk_wf [OF wf] toJunk_def)
  have cells: "newGrid r ! y ! x =
             (if status (stamped ! y ! x) = Filled \<and> (x, y) \<in> clearedOf stamped
                then (stamped ! y ! x)\<lparr>status := Empty, color := None, blockId := None\<rparr>
              else if toJunk x y
                then (stamped ! y ! x)\<lparr>status := Junk, color := Some JUNK_COLOR, blockId := None\<rparr>
              else stamped ! y ! x)"
    if "linesCleared r > 0" "x < 6" "y < 6" for x y
    using processed_clear_cell [OF pr, of x y] that processed_lines [OF pr]
    by (simp add: cellAfterClear_def bj GRID_SIZE_def)
  have junk: "junkCreated r = card {(x, y). x < 6 \<and> y < 6 \<and> toJunk x y}" if "linesCleared r > 0"
    using processed_clear_score [OF pr] that processed_lines [OF pr]
    by (simp add: junkOf_def bj GRID_SIZE_def)
  show ?thesis
    apply (intro exI [of _ stamped] exI [of _ r] exI [of _ "clearedOf stamped"]
        exI [of _ "affectedOf stamped"] exI [of _ toJunk])
    using st cells junk clearedOf_wf [OF wf] affectedOf_wf [OF wf]
    apply (intro conjI)
         apply (simp_all add: toJunk_def)
    done
qed

lemma no_clear_frame:
  assumes "wf_grid grid" "canPlaceBlock grid block tx ty = Inr True" "x < 6" "y < 6"
  shows "\<exists>r. placeBlockAndProcess grid block tx ty comboIn = Inr r \<and>
     (linesCleared r = 0 \<longrightarrow>
        newGrid r ! y ! x =
          (if \<exists>c \<in> set (cells block). tx + coord_x c = int x \<and> ty + coord_y c = int y
           then (grid ! y ! x)\<lparr>status := Filled, color := Some (block_color block),
                                blockId := Some (block_id block)\<rparr>
           else grid ! y ! x))"
proof -
  from canPlace_processed [OF assms(1,2), of comboIn]
  obtain stamped r where
    st: "placeBlockAndProcess grid block tx ty comboIn = Inr r"
    and pr: "processed grid block tx ty comboIn stamped r"
    by blast
  have xy: "x < GRID_SIZE" "y < GRID_SIZE" using assms(3,4) by (simp_all add: GRID_SIZE_def)
  have "newGrid r ! y ! x =
          (if \<exists>c \<in> set (cells block). tx + coord_x c = int x \<and> ty + coord_y c = int y
           then (grid ! y ! x)\<lparr>status := Filled, color := Some (block_color block),
                                blockId := Some (block_id block)\<rparr>
           else grid ! y ! x)" if "linesCleared r = 0"
    using processed_no_clear [OF pr] processed_stamped [OF pr xy] that processed_lines [OF pr]
    by (auto simp: covered_def stampCell_def)
  with st show ?thesis by (intro exI [of _ r]) simp
qed

section \<open>The owner invariant of reachable boards\<close>

lemma wf_createEmptyGrid: "wf_grid createEmptyGrid"
  by (simp add: wf_grid_def createEmptyGrid_def list_all_iff)

lemma createEmptyGrid_nth:
  "x < GRID_SIZE \<Longrightarrow> y < GRID_SIZE \<Longrightarrow>
   status (createEmptyGrid ! y ! x) = Empty \<and> blockId (createEmptyGrid ! y ! x) = None \<and>
   color (createEmptyGrid ! y ! x) = None"
  by (simp add: createEmptyGrid_def)

lemma ownerInv_empty: "ownerInv createEmptyGrid"
  by (simp add: ownerInv_def wf_createEmptyGrid createEmptyGrid_nth)

lemma ownerInv_cellAfterClear:
  "(blockId c \<noteq> None) = (status c = Filled) \<Longrightarrow>
   (blockId (cellAfterClear c x y cleared affected) \<noteq> None) =
     (status (cellAfterClear c x y cleared affected) = Filled)"
  by (simp add: cellAfterClear_def)

lemma ownerInv_step:
  assumes "ownerInv grid" "canPlaceBlock grid block tx ty = Inr True"
    "placeBlockAndProcess grid block tx ty combo = Inr r"
  shows "ownerInv (newGrid r)"
proof -
  have wf: "wf_grid grid" using assms(1) by (simp add: ownerInv_def)
  from canPlace_processed [OF wf assms(2), of combo] assms(3)
  obtain stamped where pr: "processed grid block tx ty combo stamped r"
    by auto
  have inv: "(blockId (grid ! y ! x) \<noteq> None) = (status (grid ! y ! x) = Filled)"
    if "x < GRID_SIZE" "y < GRID_SIZE" for x y
    using assms(1) that by (simp add: ownerInv_def)
  have st: "(blockId (stamped ! y ! x) \<noteq> None) = (status (stamped ! y ! x) = Filled)"
    if "x < GRID_SIZE" "y < GRID_SIZE" for x y
    using processed_stamped [OF pr that] inv [OF that] by (simp add: stampCell_def)
  have "(blockId (newGrid r ! y ! x) \<noteq> None) = (status (newGrid r ! y ! x) = Filled)"
    if "x < GRID_SIZE" "y < GRID_SIZE" for x y
  proof (cases "linesOf stamped > 0")
    case True
    from processed_clear_cell [OF pr True that] ownerInv_cellAfterClear [OF st [OF that]]
    show ?thesis by simp
  next
    case False
    with processed_no_clear [OF pr] st [OF that] show ?thesis by simp
  qed
  then show ?thesis
    using processed_wf [OF pr] by (simp add: ownerInv_def)
qed

lemma reachable_ownerInv: "reachable grid \<Longrightarrow> ownerInv grid"
  by (induction rule: reachable.induct) (auto intro: ownerInv_empty ownerInv_step)

text \<open>
  Claim C8. Every board reached from \<open>createEmptyGrid\<close> by legal placements has 6 rows
  of 6 cells, and at each cell \<open>blockId\<close> is set (not \<open>undefined\<close>) exactly when the
  status is \<open>filled\<close>: junk cells and empty cells carry no owner.
\<close>

theorem owner_iff_filled:
  assumes "reachable grid" "x < 6" "y < 6"
  shows "length grid = 6 \<and> length (grid ! y) = 6 \<and>
         ((blockId (grid ! y ! x) \<noteq> None) \<longleftrightarrow> status (grid ! y ! x) = Filled)"
proof -
  have inv: "ownerInv grid" using assms(1) by (rule reachable_ownerInv)
  then have wf: "wf_grid grid" by (simp add: ownerInv_def)
  show ?thesis
    using inv wf_grid_length [OF wf] wf_grid_row [OF wf, of y] assms(2,3)
    by (simp add: ownerInv_def GRID_SIZE_def)
qed

section \<open>Completing row 0\<close>

text \<open>
  Claim C9, as amended. On every 6 by 6 board whose cells \<open>(0,0)\<close> to \<open>(4,0)\<close> are
  filled and all of whose other cells are empty, and for every \<open>comboIn \<ge> 0\<close> with
  \<open>100 * comboIn + 150 \<le> 2^53\<close> (the points are then an integer a double holds
  exactly), placing a single-dot shape at \<open>(5,0)\<close> is legal and returns
  \<open>linesCleared = 1\<close>, \<open>junkCreated = 0\<close>, \<open>newCombo = comboIn + 1\<close> and
  \<open>points = 150 + 100 * comboIn\<close> (150 for \<open>comboIn = 0\<close>: the streak bonus of
  \<open>(newCombo - 1) * 100\<close> is added from the second clean clear in a row on).
\<close>

theorem row_zero_scenario:
  assumes wf: "wf_grid grid"
    and row0: "\<forall>x < 5. status (grid ! 0 ! x) = Filled"
    and gap: "status (grid ! 0 ! 5) = Empty"
    and rest: "\<forall>y < 6. 0 < y \<longrightarrow> (\<forall>x < 6. status (grid ! y ! x) = Empty)"
    and dot: "cells block = [\<lparr>coord_x = 0, coord_y = 0\<rparr>]"
    and combo: "0 \<le> comboIn"
    and bound: "100 * comboIn + 150 \<le> 2 ^ 53"
  shows "canPlaceBlock grid block 5 0 = Inr True \<and>
         (\<exists>r. placeBlockAndProcess grid block 5 0 comboIn = Inr r \<and>
              linesCleared r = 1 \<and> junkCreated r = 0 \<and>
              points r = 150 + 100 * comboIn \<and> newCombo r = comboIn + 1)"
proof -
  have can: "canPlaceBlock grid block 5 0 = Inr True"
    using gap by (simp add: canPlaceBlock_wf [OF wf] placeable_def dot GRID_SIZE_def)
  from canPlace_processed [OF wf can, of comboIn]
  obtain stamped r where
    r: "placeBlockAndProcess grid block 5 0 comboIn = Inr r"
    and pr: "processed grid block 5 0 comboIn stamped r"
    by blast
  have wfs: "wf_grid stamped" using processed_wf [OF pr] by simp
  have cov: "covered (cells block) 5 0 x y \<longleftrightarrow> x = 5 \<and> y = 0" for x y
    by (auto simp: covered_def dot)
  have stat: "status (stamped ! y ! x) = (if y = 0 then Filled else Empty)"
    if "x < 6" "y < 6" for x y
  proof -
    have "x < GRID_SIZE" "y < GRID_SIZE" using that by (simp_all add: GRID_SIZE_def)
    note s = processed_stamped [OF pr this, unfolded cov]
    show ?thesis
    proof (cases "y = 0")
      case True
      show ?thesis
      proof (cases "x = 5")
        case True
        with s \<open>y = 0\<close> show ?thesis by (simp add: stampCell_def)
      next
        case False
        with that have "x < 5" by simp
        with row0 have "status (grid ! 0 ! x) = Filled" by simp
        with s False \<open>y = 0\<close> show ?thesis by simp
      qed
    next
      case False
      with rest that have "status (grid ! y ! x) = Empty" by simp
      with s False show ?thesis by simp
    qed
  qed
  have "y = 0" if "y < GRID_SIZE" "\<forall>x < GRID_SIZE. status (stamped ! y ! x) \<noteq> Empty" for y
  proof (rule ccontr)
    assume "y \<noteq> 0"
    moreover have "y < 6" using that(1) by (simp add: GRID_SIZE_def)
    ultimately have "status (stamped ! y ! 0) = Empty" using stat [of 0 y] by simp
    with that(2) show False by (simp add: GRID_SIZE_def)
  qed
  moreover have "\<forall>x < GRID_SIZE. status (stamped ! 0 ! x) \<noteq> Empty"
    using stat [of _ 0] by (simp add: GRID_SIZE_def)
  ultimately have rows: "{y. y < GRID_SIZE \<and> (\<forall>x < GRID_SIZE. status (stamped ! y ! x) \<noteq> Empty)} = {0}"
    by (auto simp: GRID_SIZE_def)
  have "\<not> (\<forall>y < GRID_SIZE. status (stamped ! y ! x) \<noteq> Empty)" if "x < GRID_SIZE" for x
  proof -
    have "status (stamped ! 1 ! x) = Empty" using that stat [of x 1] by (simp add: GRID_SIZE_def)
    then show ?thesis by (auto simp: GRID_SIZE_def intro!: exI [of _ 1])
  qed
  then have cols: "{x. x < GRID_SIZE \<and> (\<forall>y < GRID_SIZE. status (stamped ! y ! x) \<noteq> Empty)} = {}"
    by blast
  have fr: "set (fullRowsOf stamped) = {0}" and fc: "set (fullColsOf stamped) = {}"
    using set_fullRowsOf [OF wfs] set_fullColsOf [OF wfs] rows cols by simp_all
  have lines: "linesOf stamped = 1"
    using length_fullRowsOf [OF wfs] length_fullColsOf [OF wfs] rows cols
    by (simp add: linesOf_def)
  have cl: "clearedOf stamped = {(x, y). x < GRID_SIZE \<and> y = 0}"
    unfolding clearedOf_def clearedCells_eq fr fc by auto
  have "\<not> becomesJunk (stamped ! y ! x) x y (clearedOf stamped) (affectedOf stamped)"
    if "x < GRID_SIZE" "y < GRID_SIZE" for x y
  proof (cases "y = 0")
    case True
    with that show ?thesis by (simp add: becomesJunk_def cl)
  next
    case False
    with that stat [of x y] show ?thesis by (simp add: becomesJunk_def GRID_SIZE_def)
  qed
  then have "junkOf stamped = card ({} :: (nat \<times> nat) set)"
    unfolding junkOf_def by (intro arg_cong [where f = card]) auto
  then have junk: "junkOf stamped = 0"
    by simp
  have "linesCleared r = 1 \<and> junkCreated r = 0 \<and>
        points r = 150 + 100 * comboIn \<and> newCombo r = comboIn + 1"
    using processed_lines [OF pr] processed_clear_score [OF pr] lines junk combo
      scoring_exact [OF combo, of 1 0] bound
    by simp
  with can r show ?thesis by (intro conjI exI [of _ r]) simp_all
qed

section \<open>Reading the store\<close>

lemma those_map_iff:
  "those (map f xs) = Some ys \<longleftrightarrow> list_all2 (\<lambda>x y. f x = Some y) xs ys"
proof (induction xs arbitrary: ys)
  case Nil
  then show ?case by auto
next
  case (Cons x xs)
  show ?case
  proof (cases "f x")
    case None
    then show ?thesis by (auto simp: list_all2_Cons1)
  next
    case (Some y)
    then show ?thesis
      using Cons.IH by (cases ys) (auto simp: list_all2_Cons1)
  qed
qed

lemma readRow_iff:
  "readRow h r = Some row \<longleftrightarrow>
     (\<exists>cs. lookupArr h r = Some cs \<and> list_all2 (\<lambda>c d. lookupObj h c = Some d) cs row)"
  by (auto simp: readRow_def those_map_iff split: option.splits)

lemma readGrid_iff:
  "readGrid h g = Some grid \<longleftrightarrow>
     (\<exists>rs. lookupArr h g = Some rs \<and> list_all2 (\<lambda>r row. readRow h r = Some row) rs grid)"
  by (auto simp: readGrid_def those_map_iff split: option.splits)

lemma lookupObj_less: "lookupObj h a = Some d \<Longrightarrow> a < length h"
  by (simp add: lookupObj_def split: if_splits)

lemma lookupArr_less: "lookupArr h a = Some xs \<Longrightarrow> a < length h"
  by (simp add: lookupArr_def split: if_splits)

lemma lookupObj_append: "lookupObj h a = Some d \<Longrightarrow> lookupObj (h @ zs) a = Some d"
  by (simp add: lookupObj_def nth_append split: if_splits)

lemma lookupArr_append: "lookupArr h a = Some xs \<Longrightarrow> lookupArr (h @ zs) a = Some xs"
  by (simp add: lookupArr_def nth_append split: if_splits)

lemma lookupObj_new: "lookupObj (h @ Obj d # zs) (length h) = Some d"
  by (simp add: lookupObj_def nth_append)

lemma lookupArr_new: "lookupArr (h @ Arr xs # zs) (length h) = Some xs"
  by (simp add: lookupArr_def nth_append)

lemma readRow_append: "readRow h r = Some row \<Longrightarrow> readRow (h @ zs) r = Some row"
  unfolding readRow_iff
  by (auto intro: lookupArr_append elim!: list_all2_mono lookupObj_append)

lemma readGrid_append: "readGrid h g = Some grid \<Longrightarrow> readGrid (h @ zs) g = Some grid"
  unfolding readGrid_iff
  by (auto intro: lookupArr_append elim!: list_all2_mono readRow_append)

lemma freshGrid_readGrid: "freshGrid h0 h g grid \<Longrightarrow> readGrid h g = Some grid"
  unfolding freshGrid_def readGrid_iff readRow_iff
  by (auto elim!: list_all2_mono)

section \<open>Copying the board\<close>

lemma lookupObj_append2:
  "lookupObj (h @ zs) a = Some d \<Longrightarrow> lookupObj (h @ zs @ zs') a = Some d"
  using lookupObj_append [of "h @ zs" a d zs'] by simp

lemma lookupArr_append2:
  "lookupArr (h @ zs) a = Some xs \<Longrightarrow> lookupArr (h @ zs @ zs') a = Some xs"
  using lookupArr_append [of "h @ zs" a xs zs'] by simp

lemma copyCells_ok:
  "list_all2 (\<lambda>c d. lookupObj h c = Some d) cs row \<Longrightarrow>
   \<exists>as zs. copyCells h cs = Inr (as, h @ zs) \<and>
     list_all2 (\<lambda>a d. length h \<le> a \<and> lookupObj (h @ zs) a = Some d) as row"
proof (induction cs arbitrary: h row)
  case Nil
  then show ?case by (intro exI [of _ "[]"]) simp
next
  case (Cons c cs)
  from Cons.prems obtain d row' where row: "row = d # row'"
    and c: "lookupObj h c = Some d"
    and rest: "list_all2 (\<lambda>c d. lookupObj h c = Some d) cs row'"
    by (auto simp: list_all2_Cons1)
  let ?h1 = "h @ [Obj d]"
  have "list_all2 (\<lambda>c d. lookupObj ?h1 c = Some d) cs row'"
    using rest by (rule list_all2_mono) (rule lookupObj_append)
  from Cons.IH [OF this] obtain as zs where
    cp: "copyCells ?h1 cs = Inr (as, ?h1 @ zs)"
    and all: "list_all2 (\<lambda>a d. length ?h1 \<le> a \<and> lookupObj (?h1 @ zs) a = Some d) as row'"
    by blast
  have heap: "?h1 @ zs = h @ Obj d # zs" by simp
  have "copyCells h (c # cs) = Inr (length h # as, h @ Obj d # zs)"
    using c cp by simp
  moreover have "list_all2 (\<lambda>a e. length h \<le> a \<and> lookupObj (h @ Obj d # zs) a = Some e)
      (length h # as) row"
    unfolding row using all
    by (auto simp: lookupObj_new heap elim!: list_all2_mono)
  ultimately show ?case by blast
qed

lemma copyRows_ok:
  "list_all2 (\<lambda>r row. readRow h r = Some row) rs grid \<Longrightarrow>
   \<exists>ras zs. copyRows h rs = Inr (ras, h @ zs) \<and> distinct ras \<and>
     (\<forall>r \<in> set ras. length h \<le> r \<and> r < length (h @ zs)) \<and>
     list_all2
       (\<lambda>r row. length h \<le> r \<and>
          (\<exists>cs. lookupArr (h @ zs) r = Some cs \<and>
             list_all2 (\<lambda>c d. length h \<le> c \<and> lookupObj (h @ zs) c = Some d) cs row))
       ras grid"
proof (induction rs arbitrary: h grid)
  case Nil
  then show ?case by (intro exI [of _ "[]"]) simp
next
  case (Cons r rs)
  from Cons.prems obtain row grid' where grid: "grid = row # grid'"
    and r: "readRow h r = Some row"
    and rest: "list_all2 (\<lambda>r row. readRow h r = Some row) rs grid'"
    by (auto simp: list_all2_Cons1)
  from r obtain cs where cs: "lookupArr h r = Some cs"
    and cells: "list_all2 (\<lambda>c d. lookupObj h c = Some d) cs row"
    unfolding readRow_iff by blast
  from copyCells_ok [OF cells] obtain as zs1 where
    cc: "copyCells h cs = Inr (as, h @ zs1)"
    and as: "list_all2 (\<lambda>a d. length h \<le> a \<and> lookupObj (h @ zs1) a = Some d) as row"
    by blast
  let ?h1 = "h @ zs1"
  let ?h2 = "?h1 @ [Arr as]"
  have "list_all2 (\<lambda>r row. readRow ?h2 r = Some row) rs grid'"
    using rest by (rule list_all2_mono) (simp add: readRow_append del: append_assoc)
  from Cons.IH [OF this] obtain ras zs2 where
    cr: "copyRows ?h2 rs = Inr (ras, ?h2 @ zs2)"
    and dist: "distinct ras"
    and bnd: "\<forall>r \<in> set ras. length ?h2 \<le> r \<and> r < length (?h2 @ zs2)"
    and all: "list_all2
       (\<lambda>r row. length ?h2 \<le> r \<and>
          (\<exists>cs. lookupArr (?h2 @ zs2) r = Some cs \<and>
             list_all2 (\<lambda>c d. length ?h2 \<le> c \<and> lookupObj (?h2 @ zs2) c = Some d) cs row))
       ras grid'"
    by blast
  define zs where "zs = zs1 @ Arr as # zs2"
  have heap: "?h2 @ zs2 = h @ zs" by (simp add: zs_def)
  have heap1: "h @ zs = ?h1 @ Arr as # zs2" by (simp add: zs_def)
  have run: "copyRows h (r # rs) = Inr (length ?h1 # ras, h @ zs)"
    using cs cc cr heap by simp
  have d: "distinct (length ?h1 # ras)"
    using dist bnd by auto
  have b: "\<forall>r \<in> set (length ?h1 # ras). length h \<le> r \<and> r < length (h @ zs)"
    using bnd heap by (auto simp: zs_def)
  have hd: "lookupArr (h @ zs) (length ?h1) = Some as"
    unfolding heap1 by (rule lookupArr_new)
  have hdc: "list_all2 (\<lambda>c d. length h \<le> c \<and> lookupObj (h @ zs) c = Some d) as row"
    using as unfolding zs_def
    by (rule list_all2_mono) (auto intro: lookupObj_append2)
  have tl: "list_all2
       (\<lambda>r row. length h \<le> r \<and>
          (\<exists>cs. lookupArr (h @ zs) r = Some cs \<and>
             list_all2 (\<lambda>c d. length h \<le> c \<and> lookupObj (h @ zs) c = Some d) cs row))
       ras grid'"
    using all unfolding heap
    by (rule list_all2_mono) (auto elim!: list_all2_mono)
  show ?case
    unfolding grid
    using run d b hd hdc tl
    by (intro exI [of _ "length ?h1 # ras"] exI [of _ zs]) auto
qed

lemma copyGrid_ok:
  assumes "readGrid h g = Some grid"
  shows "\<exists>g' h'. copyGrid h g = Inr (g', h') \<and> freshGrid h h' g' grid"
proof -
  from assms obtain rs where rs: "lookupArr h g = Some rs"
    and rows: "list_all2 (\<lambda>r row. readRow h r = Some row) rs grid"
    unfolding readGrid_iff by blast
  from copyRows_ok [OF rows] obtain ras zs where
    cr: "copyRows h rs = Inr (ras, h @ zs)"
    and dist: "distinct ras"
    and bnd: "\<forall>r \<in> set ras. length h \<le> r \<and> r < length (h @ zs)"
    and all: "list_all2
       (\<lambda>r row. length h \<le> r \<and>
          (\<exists>cs. lookupArr (h @ zs) r = Some cs \<and>
             list_all2 (\<lambda>c d. length h \<le> c \<and> lookupObj (h @ zs) c = Some d) cs row))
       ras grid"
    by blast
  let ?g = "length (h @ zs)"
  let ?h = "(h @ zs) @ [Arr ras]"
  have run: "copyGrid h g = Inr (?g, ?h)"
    using rs cr by (simp add: copyGrid_def)
  have "lookupArr ?h ?g = Some ras"
    by (rule lookupArr_new)
  moreover have "?g \<notin> set ras" using bnd by auto
  moreover have "list_all2
       (\<lambda>r row. length h \<le> r \<and>
          (\<exists>cs. lookupArr ?h r = Some cs \<and>
             list_all2 (\<lambda>c d. length h \<le> c \<and> lookupObj ?h c = Some d) cs row))
       ras grid"
    using all
    by (rule list_all2_mono) (auto intro: lookupArr_append2 lookupObj_append2 elim!: list_all2_mono)
  ultimately have "freshGrid h ?h ?g grid"
    unfolding freshGrid_def using dist
    by (intro conjI exI [of _ "zs @ [Arr ras]"] exI [of _ ras]) simp_all
  with run show ?thesis by blast
qed

section \<open>Writing a cell of the new board\<close>

lemma writeCell_ok:
  assumes fg: "freshGrid h0 h g grid"
    and y: "0 \<le> y" "y < int (length grid)"
    and x: "0 \<le> x" "x < int (length (grid ! nat y))"
  shows "\<exists>h'. writeCell h g x y f = Inr h' \<and>
           freshGrid h0 h' g (grid[nat y := (grid ! nat y)[nat x := f (grid ! nat y ! nat x)]])"
proof -
  let ?P = "\<lambda>h c d. length h0 \<le> c \<and> lookupObj h c = Some d"
  let ?Q = "\<lambda>h r row. length h0 \<le> r \<and>
             (\<exists>cs. lookupArr h r = Some cs \<and> list_all2 (?P h) cs row)"
  from fg obtain zs rs where ext: "h = h0 @ zs"
    and rs: "lookupArr h g = Some rs" and g0: "length h0 \<le> g"
    and gn: "g \<notin> set rs" and dist: "distinct rs"
    and all: "list_all2 (?Q h) rs grid"
    unfolding freshGrid_def by blast
  define Y where "Y = nat y"
  define X where "X = nat x"
  have len: "length rs = length grid" using all by (rule list_all2_lengthD)
  have Y: "Y < length grid" "Y < length rs" using y len by (simp_all add: Y_def)
  define ra where "ra = rs ! Y"
  from list_all2_nthD [OF all Y(2)] obtain cs where
    ra0: "length h0 \<le> ra" and cs: "lookupArr h ra = Some cs"
    and cells: "list_all2 (?P h) cs (grid ! Y)"
    unfolding ra_def by blast
  have lenc: "length cs = length (grid ! Y)" using cells by (rule list_all2_lengthD)
  have X: "X < length cs" using x lenc by (simp add: X_def Y_def)
  have old: "lookupObj h (cs ! X) = Some (grid ! Y ! X)"
    using list_all2_nthD [OF cells X] by simp
  define v where "v = f (grid ! Y ! X)"
  define h' where "h' = (h @ [Obj v])[ra := Arr (cs[X := length h])]"
  have run: "writeCell h g x y f = Inr h'"
    using rs y len cs x lenc old
    by (simp add: writeCell_def h'_def v_def ra_def X_def Y_def)
  have ral: "ra < length h" using cs by (rule lookupArr_less)
  have S1: "lookupObj h' c = Some d" if "lookupObj h c = Some d" for c d
    using that cs
    by (auto simp: h'_def lookupObj_def lookupArr_def nth_append nth_list_update
        split: if_splits hobj.splits)
  have S2: "lookupArr h' r = Some xs" if "lookupArr h r = Some xs" "r \<noteq> ra" for r xs
    using that
    by (auto simp: h'_def lookupArr_def nth_append nth_list_update split: if_splits hobj.splits)
  have S3: "lookupArr h' ra = Some (cs[X := length h])"
    using ral by (simp add: h'_def lookupArr_def)
  have S4: "lookupObj h' (length h) = Some v"
    using ral by (simp add: h'_def lookupObj_def nth_append)
  have S5: "\<exists>zs'. h' = h0 @ zs'"
    using ra0 unfolding h'_def ext
    by (intro exI [of _ "(zs @ [Obj v])[ra - length h0 := Arr (cs[X := length (h0 @ zs)])]"])
       (simp add: list_update_append)
  have P: "?P h' c d" if "?P h c d" for c d
    using that S1 by simp
  let ?grid' = "grid[Y := (grid ! Y)[X := v]]"
  have g': "lookupArr h' g = Some rs"
  proof (rule S2 [OF rs])
    show "g \<noteq> ra" using gn Y(2) by (auto simp: ra_def)
  qed
  have "?Q h' (rs ! i) (?grid' ! i)" if i: "i < length rs" for i
  proof (cases "i = Y")
    case True
    have "length h0 \<le> length h" by (simp add: ext)
    then have "list_all2 (?P h') (cs[X := length h]) ((grid ! Y)[X := v])"
      using list_all2_mono [OF cells P] S4
      by (intro list_all2_update_cong) simp_all
    then show ?thesis
      using True Y ra0 S3 by (auto simp: ra_def)
  next
    case False
    then have ne: "rs ! i \<noteq> ra"
      using dist i Y(2) by (simp add: ra_def nth_eq_iff_index_eq)
    from list_all2_nthD [OF all i] obtain cs' where
      "length h0 \<le> rs ! i" "lookupArr h (rs ! i) = Some cs'"
      "list_all2 (?P h) cs' (grid ! i)"
      by blast
    then show ?thesis
      using False S2 [OF _ ne] list_all2_mono [OF _ P]
      by (auto intro!: exI [of _ cs'])
  qed
  then have "list_all2 (?Q h') rs ?grid'"
    using len by (simp add: list_all2_conv_all_nth)
  then have "freshGrid h0 h' g ?grid'"
    unfolding freshGrid_def using S5 g' g0 gn dist by blast
  with run show ?thesis
    by (auto simp: X_def Y_def v_def)
qed

section \<open>The function on the store\<close>

lemma store_placeCells_ok:
  "freshGrid h0 h g grid \<Longrightarrow> wf_grid grid \<Longrightarrow> inBounds cs tx ty \<Longrightarrow>
   \<exists>h' stamped. store_placeCells h g b cs tx ty = Inr h' \<and>
      placeCells grid b cs tx ty = Inr stamped \<and> freshGrid h0 h' g stamped"
proof (induction cs arbitrary: h grid)
  case Nil
  then show ?case by simp
next
  case (Cons c cs)
  let ?x = "tx + coord_x c" and ?y = "ty + coord_y c"
  let ?g = "grid[nat ?y := (grid ! nat ?y)[nat ?x := stampCell b (grid ! nat ?y ! nat ?x)]]"
  from Cons.prems(3) have rng: "0 \<le> ?x" "?x < int GRID_SIZE" "0 \<le> ?y" "?y < int GRID_SIZE"
    and rest: "inBounds cs tx ty"
    by (auto simp: inBounds_def)
  have ny: "nat ?y < GRID_SIZE" using rng by linarith
  have len: "length grid = GRID_SIZE" "length (grid ! nat ?y) = GRID_SIZE"
    using Cons.prems(2) ny by (simp_all add: wf_grid_length wf_grid_row)
  from writeCell_ok [OF Cons.prems(1), of ?y ?x "stampCell b"] rng len
  obtain h1 where w: "writeCell h g ?x ?y (stampCell b) = Inr h1"
    and f1: "freshGrid h0 h1 g ?g"
    by auto
  have wf': "wf_grid ?g"
    using Cons.prems(2) ny by (rule wf_grid_update)
  from Cons.IH [OF f1 wf' rest] obtain h' stamped where
    "store_placeCells h1 g b cs tx ty = Inr h'"
    "placeCells ?g b cs tx ty = Inr stamped" "freshGrid h0 h' g stamped"
    by blast
  then show ?case
    using w rng len by (simp add: Let_def)
qed

lemma store_applyUpdates_ok:
  "freshGrid h0 h g grid \<Longrightarrow> wf_grid grid \<Longrightarrow>
   \<forall>u \<in> set us. u_x u < GRID_SIZE \<and> u_y u < GRID_SIZE \<Longrightarrow>
   \<exists>h'. store_applyUpdates h g us = Inr h' \<and> freshGrid h0 h' g (fold applyUpdate us grid)"
proof (induction us arbitrary: h grid)
  case Nil
  then show ?case by simp
next
  case (Cons u us)
  then have u: "u_x u < GRID_SIZE" "u_y u < GRID_SIZE" by simp_all
  have len: "length grid = GRID_SIZE" "length (grid ! u_y u) = GRID_SIZE"
    using Cons.prems(2) u by (simp_all add: wf_grid_length wf_grid_row)
  let ?f = "\<lambda>c. c\<lparr>status := u_status u, color := u_color u, blockId := None\<rparr>"
  from writeCell_ok [OF Cons.prems(1), of "int (u_y u)" "int (u_x u)" ?f] u len
  obtain h1 where w: "writeCell h g (int (u_x u)) (int (u_y u)) ?f = Inr h1"
    and f1: "freshGrid h0 h1 g (applyUpdate u grid)"
    by (auto simp: applyUpdate_def)
  have wf': "wf_grid (applyUpdate u grid)"
    using Cons.prems(2) u(2) by (rule applyUpdate_wf)
  from Cons.IH [OF f1 wf'] Cons.prems(3) obtain h' where
    "store_applyUpdates h1 g us = Inr h'"
    "freshGrid h0 h' g (fold applyUpdate us (applyUpdate u grid))"
    by auto
  then show ?case using w by simp
qed

lemma store_refines:
  assumes rd: "readGrid h g = Some grid" and wf: "wf_grid grid"
    and ib: "inBounds (cells b) tx ty"
  shows "\<exists>r g' h'.
     placeBlockAndProcess grid b tx ty combo = Inr r \<and>
     placeBlockAndProcess_store h g b tx ty combo =
       Inr ((g', linesCleared r, junkCreated r, points r, newCombo r), h') \<and>
     freshGrid h h' g' (newGrid r)"
proof -
  from copyGrid_ok [OF rd] obtain g' h1 where
    cp: "copyGrid h g = Inr (g', h1)" and f1: "freshGrid h h1 g' grid"
    by blast
  from store_placeCells_ok [OF f1 wf ib, of b] obtain h2 stamped where
    sp: "store_placeCells h1 g' b (cells b) tx ty = Inr h2"
    and st: "placeCells grid b (cells b) tx ty = Inr stamped"
    and f2: "freshGrid h h2 g' stamped"
    by blast
  have wfs: "wf_grid stamped"
    using placeCells_wf [OF wf ib, of b] st by auto
  have rd2: "readGrid h2 g' = Some stamped"
    using f2 by (rule freshGrid_readGrid)
  have fr: "findFullRows stamped [0..<GRID_SIZE] = Inr (fullRowsOf stamped)"
    using findFullRows_wf [OF wfs, of "[0..<GRID_SIZE]"] by (simp add: fullRowsOf_def)
  have fc: "findFullCols stamped [0..<GRID_SIZE] = Inr (fullColsOf stamped)"
    using findFullCols_wf [OF wfs, of "[0..<GRID_SIZE]"] by (simp add: fullColsOf_def)
  let ?us = "concat (map (\<lambda>y. rowUpdates stamped y (clearedOf stamped) (affectedOf stamped)) [0..<GRID_SIZE])"
  have sc: "scanGrid stamped (clearedOf stamped) (affectedOf stamped) [0..<GRID_SIZE] ([], 0) =
              Inr (?us, junkOf stamped)"
    using scanGrid_wf [OF wfs, of "[0..<GRID_SIZE]" "clearedOf stamped" "affectedOf stamped" "([], 0)"]
    by (simp add: gridJunk_card junkOf_def)
  show ?thesis
  proof (cases "linesOf stamped > 0")
    case True
    from store_applyUpdates_ok [OF f2 wfs gridUpdates_bounds [of stamped "clearedOf stamped" "affectedOf stamped"]]
    obtain h3 where
      ap: "store_applyUpdates h2 g' ?us = Inr h3"
      and f3: "freshGrid h h3 g' (fold applyUpdate ?us stamped)"
      by blast
    let ?r = "\<lparr>newGrid = fold applyUpdate ?us stamped,
               linesCleared = linesOf stamped,
               junkCreated = junkOf stamped,
               points = pointsAfterClear (linesOf stamped) (junkOf stamped)
                          (comboAfterClear (junkOf stamped) combo),
               newCombo = comboAfterClear (junkOf stamped) combo\<rparr>"
    have p: "placeBlockAndProcess grid b tx ty combo = Inr ?r"
      using True sc
      by (simp add: placeBlockAndProcess_def st fr fc Let_def linesOf_def clearedOf_def affectedOf_def)
    have s: "placeBlockAndProcess_store h g b tx ty combo =
       Inr ((g', linesCleared ?r, junkCreated ?r, points ?r, newCombo ?r), h3)"
      using True sc ap
      by (simp add: placeBlockAndProcess_store_def cp sp rd2 fr fc Let_def linesOf_def
          clearedOf_def affectedOf_def)
    show ?thesis
      using p s f3 by (intro exI [of _ ?r] exI [of _ g'] exI [of _ h3]) simp
  next
    case False
    let ?r = "\<lparr>newGrid = stamped, linesCleared = linesOf stamped, junkCreated = 0,
               points = 0 + int (length (cells b)) * 10, newCombo = 0\<rparr>"
    have p: "placeBlockAndProcess grid b tx ty combo = Inr ?r"
      using False
      by (simp add: placeBlockAndProcess_def st fr fc Let_def linesOf_def)
    have s: "placeBlockAndProcess_store h g b tx ty combo =
       Inr ((g', linesCleared ?r, junkCreated ?r, points ?r, newCombo ?r), h2)"
      using False
      by (simp add: placeBlockAndProcess_store_def cp sp rd2 fr fc Let_def linesOf_def)
    show ?thesis
      using p s f2 by (intro exI [of _ ?r] exI [of _ g'] exI [of _ h2]) simp
  qed
qed

lemma freshGrid_addrs:
  assumes "freshGrid h0 h g grid"
  shows "\<forall>a \<in> set (gridAddrs h g). length h0 \<le> a"
proof -
  let ?P = "\<lambda>c d. length h0 \<le> c \<and> lookupObj h c = Some d"
  from assms obtain rs where rs: "lookupArr h g = Some rs" and g0: "length h0 \<le> g"
    and all: "list_all2 (\<lambda>r row. length h0 \<le> r \<and>
             (\<exists>cs. lookupArr h r = Some cs \<and> list_all2 ?P cs row)) rs grid"
    unfolding freshGrid_def by blast
  have row: "length h0 \<le> r \<and> (\<forall>cs. lookupArr h r = Some cs \<longrightarrow> (\<forall>c \<in> set cs. length h0 \<le> c))"
    if "r \<in> set rs" for r
  proof -
    from that obtain i where i: "i < length rs" "r = rs ! i"
      by (auto simp: in_set_conv_nth)
    from list_all2_nthD [OF all i(1)] obtain cs where
      r0: "length h0 \<le> r" and cs: "lookupArr h r = Some cs" and c: "list_all2 ?P cs (grid ! i)"
      unfolding i(2) by blast
    have "length h0 \<le> c'" if "c' \<in> set cs" for c'
    proof -
      from that obtain j where j: "j < length cs" "c' = cs ! j"
        by (auto simp: in_set_conv_nth)
      from list_all2_nthD [OF c j(1)] show ?thesis unfolding j(2) by simp
    qed
    with r0 cs show ?thesis by simp
  qed
  show ?thesis
    using rs g0 row by (auto simp: gridAddrs_def split: option.splits) metis
qed

lemma freshGrid_extends: "freshGrid h0 h g grid \<Longrightarrow> \<exists>zs. h = h0 @ zs"
  by (simp add: freshGrid_def)

text \<open>
  Claim C10. Let the store \<open>h\<close> hold a 6 by 6 board at the address \<open>g\<close>, and let the
  placement be accepted by \<open>canPlaceBlock\<close>. The function run on the store returns the
  numbers of the value-level result \<open>r\<close> and an address \<open>g'\<close> that holds \<open>newGrid r\<close>.
  The store it leaves is \<open>h\<close> with new values appended: no array or object that
  existed is written, so the argument still reads as the same board. Every array and
  object of the returned board (outer array, rows, cells) was allocated by the call:
  the result shares nothing with the argument. And when \<open>linesCleared = 0\<close>, a cell
  of the result outside the stamped coordinates is the cell of the input board, and a
  stamped cell is that cell with status \<open>filled\<close> and the colour and identifier of the
  shape.
\<close>

theorem placement_returns_fresh_board:
  assumes "readGrid h g = Some grid" "wf_grid grid"
    "canPlaceBlock grid block tx ty = Inr True" "x < 6" "y < 6"
  shows "\<exists>r g' h' zs.
     placeBlockAndProcess grid block tx ty comboIn = Inr r \<and>
     placeBlockAndProcess_store h g block tx ty comboIn =
       Inr ((g', linesCleared r, junkCreated r, points r, newCombo r), h') \<and>
     readGrid h' g' = Some (newGrid r) \<and>
     h' = h @ zs \<and>
     readGrid h' g = Some grid \<and>
     (\<forall>a \<in> set (gridAddrs h' g'). length h \<le> a) \<and>
     (linesCleared r = 0 \<longrightarrow>
        newGrid r ! y ! x =
          (if \<exists>c \<in> set (cells block). tx + coord_x c = int x \<and> ty + coord_y c = int y
           then (grid ! y ! x)\<lparr>status := Filled, color := Some (block_color block),
                                blockId := Some (block_id block)\<rparr>
           else grid ! y ! x))"
proof -
  note ib = canPlace_inBounds(1) [OF assms(2,3)]
  from store_refines [OF assms(1,2) ib, of comboIn] obtain r g' h' where
    p: "placeBlockAndProcess grid block tx ty comboIn = Inr r"
    and s: "placeBlockAndProcess_store h g block tx ty comboIn =
       Inr ((g', linesCleared r, junkCreated r, points r, newCombo r), h')"
    and f: "freshGrid h h' g' (newGrid r)"
    by blast
  from freshGrid_extends [OF f] obtain zs where zs: "h' = h @ zs" by blast
  have old: "readGrid h' g = Some grid"
    unfolding zs using assms(1) by (rule readGrid_append)
  from no_clear_frame [OF assms(2,3,4,5), of comboIn] p
  have frame: "linesCleared r = 0 \<longrightarrow>
        newGrid r ! y ! x =
          (if \<exists>c \<in> set (cells block). tx + coord_x c = int x \<and> ty + coord_y c = int y
           then (grid ! y ! x)\<lparr>status := Filled, color := Some (block_color block),
                                blockId := Some (block_id block)\<rparr>
           else grid ! y ! x)"
    by auto
  show ?thesis
    using p s freshGrid_readGrid [OF f] zs old freshGrid_addrs [OF f] frame
    by (intro exI [of _ r] exI [of _ g'] exI [of _ h'] exI [of _ zs]) simp
qed

section \<open>Evaluation at the example boards\<close>

lemma wf_rowZeroBoard: "wf_grid rowZeroBoard"
  by code_simp

lemma wf_junkRowBoard: "wf_grid junkRowBoard"
  by code_simp

lemma can_empty_domino: "canPlaceBlock emptyBoard domino 0 0 = Inr True"
  by code_simp

lemma can_rowZero_dot: "canPlaceBlock rowZeroBoard dot 5 0 = Inr True"
  by code_simp

lemma can_junkRow_dot: "canPlaceBlock junkRowBoard dot 5 0 = Inr True"
  by code_simp

lemma run_empty_domino:
  "map_sum id (\<lambda>r. (linesCleared r, junkCreated r, points r, newCombo r))
     (placeBlockAndProcess emptyBoard domino 0 0 0) = Inr (0, 0, 20, 0)"
  by code_simp

lemma run_rowZero_dot:
  "placeBlockAndProcess rowZeroBoard dot 5 0 1 =
     Inr \<lparr>newGrid = emptyBoard, linesCleared = 1, junkCreated = 0, points = 250, newCombo = 2\<rparr>"
  by code_simp

lemma stamp_junkRow_dot:
  "map_sum id (\<lambda>g. status (g ! 0 ! 0)) (placeCells junkRowBoard dot (cells dot) 5 0) = Inr Junk"
  by code_simp

text \<open>
  The scoring at two placements: a domino on the empty board (no line cleared, 20
  points) and the dot that completes row 0 with \<open>comboIn = 1\<close> (one line, no junk,
  combo 2, 250 points).
\<close>

theorem scoring_and_combo_witness:
  "wf_grid emptyBoard \<and> canPlaceBlock emptyBoard domino 0 0 = Inr True \<and> (0::int) \<le> 0 \<and>
   (100::int) * 0 + 1800 \<le> 2 ^ 53 \<and> (100::int) * 1 + 1800 \<le> 2 ^ 53 \<and>
   (\<exists>r. placeBlockAndProcess emptyBoard domino 0 0 0 = Inr r \<and> linesCleared r = 0 \<and>
        newCombo r = 0 \<and> points r = 20) \<and>
   wf_grid rowZeroBoard \<and> canPlaceBlock rowZeroBoard dot 5 0 = Inr True \<and> (0::int) \<le> 1 \<and>
   (\<exists>r. placeBlockAndProcess rowZeroBoard dot 5 0 1 = Inr r \<and> linesCleared r = 1 \<and>
        junkCreated r = 0 \<and> newCombo r = 2 \<and> points r = 250)"
proof -
  from scoring_and_combo [OF wf_emptyBoard can_empty_domino, of 0] 
  obtain r where r: "placeBlockAndProcess emptyBoard domino 0 0 0 = Inr r"
    and z: "linesCleared r = 0 \<longrightarrow> newCombo r = 0 \<and> points r = 10 * int (length (cells domino))"
    by auto
  have "linesCleared r = 0" using run_empty_domino r by simp
  with z have a: "\<exists>r. placeBlockAndProcess emptyBoard domino 0 0 0 = Inr r \<and> linesCleared r = 0 \<and>
        newCombo r = 0 \<and> points r = 20"
    using r by (simp add: domino_def)
  from scoring_and_combo [OF wf_rowZeroBoard can_rowZero_dot, of 1]
  obtain r' where r': "placeBlockAndProcess rowZeroBoard dot 5 0 1 = Inr r'"
    and p: "linesCleared r' > 0 \<longrightarrow>
        newCombo r' = (if junkCreated r' = 0 then 1 + 1 else 0) \<and>
        points r' = 100 * int (linesCleared r')
                   + (if junkCreated r' = 0 then 50 * int (linesCleared r') else 0)
                   + (if newCombo r' > 1 then (newCombo r' - 1) * 100 else 0)"
    by auto
  have "linesCleared r' = 1 \<and> junkCreated r' = 0" using run_rowZero_dot r' by simp
  with p r' have b: "\<exists>r. placeBlockAndProcess rowZeroBoard dot 5 0 1 = Inr r \<and> linesCleared r = 1 \<and>
        junkCreated r = 0 \<and> newCombo r = 2 \<and> points r = 250"
    by simp
  show ?thesis
    using a b wf_emptyBoard wf_rowZeroBoard can_empty_domino can_rowZero_dot by simp
qed

text \<open>
  The count at the dot that completes row 0: one full line.
\<close>

theorem linesCleared_counts_full_lines_witness:
  "wf_grid rowZeroBoard \<and> canPlaceBlock rowZeroBoard dot 5 0 = Inr True \<and>
   (\<exists>stamped r.
     placeCells rowZeroBoard dot (cells dot) 5 0 = Inr stamped \<and>
     placeBlockAndProcess rowZeroBoard dot 5 0 1 = Inr r \<and>
     linesCleared r = 1 \<and>
     card {y. y < 6 \<and> (\<forall>x < 6. status (stamped ! y ! x) \<noteq> Empty)} +
       card {x. x < 6 \<and> (\<forall>y < 6. status (stamped ! y ! x) \<noteq> Empty)} = 1)"
proof -
  from linesCleared_counts_full_lines [OF wf_rowZeroBoard can_rowZero_dot, of 1]
  obtain stamped r where
    s: "placeCells rowZeroBoard dot (cells dot) 5 0 = Inr stamped"
    and r: "placeBlockAndProcess rowZeroBoard dot 5 0 1 = Inr r"
    and l: "linesCleared r =
       card {y. y < 6 \<and> (\<forall>x < 6. status (stamped ! y ! x) \<noteq> Empty)} +
       card {x. x < 6 \<and> (\<forall>y < 6. status (stamped ! y ! x) \<noteq> Empty)}"
    by auto
  have "linesCleared r = 1" using run_rowZero_dot r by simp
  with s r l show ?thesis
    using wf_rowZeroBoard can_rowZero_dot by (intro conjI exI [of _ stamped] exI [of _ r]) simp_all
qed

text \<open>
  Row 0 holds a junk cell at \<open>(0,0)\<close> and is completed by a dot: the line is cleared
  and the junk cell is still there.
\<close>

theorem junk_survives_clear_witness:
  "wf_grid junkRowBoard \<and> canPlaceBlock junkRowBoard dot 5 0 = Inr True \<and> (0::nat) < 6 \<and>
   (\<exists>stamped r.
     placeCells junkRowBoard dot (cells dot) 5 0 = Inr stamped \<and>
     placeBlockAndProcess junkRowBoard dot 5 0 0 = Inr r \<and>
     status (stamped ! 0 ! 0) = Junk \<and>
     newGrid r ! 0 ! 0 = stamped ! 0 ! 0 \<and> status (newGrid r ! 0 ! 0) = Junk)"
proof -
  from junk_survives_clear [OF wf_junkRowBoard can_junkRow_dot, of 0 0 0]
  obtain stamped r where
    s: "placeCells junkRowBoard dot (cells dot) 5 0 = Inr stamped"
    and r: "placeBlockAndProcess junkRowBoard dot 5 0 0 = Inr r"
    and j: "status (stamped ! 0 ! 0) = Junk \<longrightarrow>
        newGrid r ! 0 ! 0 = stamped ! 0 ! 0 \<and> status (newGrid r ! 0 ! 0) = Junk"
    by auto
  have "status (stamped ! 0 ! 0) = Junk" using stamp_junkRow_dot s by simp
  with s r j show ?thesis
    using wf_junkRowBoard can_junkRow_dot by (intro conjI exI [of _ stamped] exI [of _ r]) simp_all
qed


lemma lTromino_normalized: "normalized (cells lTromino)"
  by (simp add: normalized_def lTromino_def)



lemma run_rotate_lTromino:
  "cells (rotateBlockDefinition lTromino) =
     [\<lparr>coord_x = 0, coord_y = 0\<rparr>, \<lparr>coord_x = 0, coord_y = 1\<rparr>, \<lparr>coord_x = 1, coord_y = 1\<rparr>]"
  by code_simp

text \<open>
  The claim at an L tromino of the catalogue.
\<close>

theorem rotate_properties_witness:
  "cells lTromino \<noteq> [] \<and> boundedOffsets (cells lTromino) \<and> normalized (cells lTromino) \<and>
   set (cells (rotateBlockDefinition lTromino)) =
     {\<lparr>coord_x = 0, coord_y = 0\<rparr>, \<lparr>coord_x = 0, coord_y = 1\<rparr>, \<lparr>coord_x = 1, coord_y = 1\<rparr>} \<and>
   Min (coord_x ` set (cells (rotateBlockDefinition lTromino))) = 0 \<and>
   Min (coord_y ` set (cells (rotateBlockDefinition lTromino))) = 0 \<and>
   block_id (rotateBlockDefinition lTromino) = ''t1'' \<and>
   set (cells ((rotateBlockDefinition ^^ 4) lTromino)) = set (cells lTromino)"
proof -
  have ne: "cells lTromino \<noteq> []" by (simp add: lTromino_def)
  have bnd: "\<forall>c \<in> set (cells lTromino). \<bar>coord_x c\<bar> \<le> 2 ^ 52 \<and> \<bar>coord_y c\<bar> \<le> 2 ^ 52"
    by (simp add: lTromino_def)
  note p = rotate_properties [OF ne bnd]
  have "set (cells ((rotateBlockDefinition ^^ 4) lTromino)) = set (cells lTromino)"
    using p lTromino_normalized by blast
  moreover have "block_id (rotateBlockDefinition lTromino) = ''t1''"
    using p by (simp add: lTromino_def)
  moreover have "Min (coord_x ` set (cells (rotateBlockDefinition lTromino))) = 0"
    "Min (coord_y ` set (cells (rotateBlockDefinition lTromino))) = 0"
    using p by blast+
  moreover have "boundedOffsets (cells lTromino)"
    using bnd by (simp add: boundedOffsets_def)
  ultimately show ?thesis
    using ne lTromino_normalized run_rotate_lTromino by simp
qed


lemma can_created_domino: "canPlaceBlock createEmptyGrid domino 0 0 = Inr True"
  by code_simp

lemma run_afterDomino:
  "status (afterDomino ! 0 ! 0) = Filled \<and> status (afterDomino ! 0 ! 2) = Empty"
  by code_simp

lemma reachable_afterDomino: "reachable afterDomino"
proof -
  from canPlace_processed [OF wf_createEmptyGrid can_created_domino, of 0]
  obtain r where r: "placeBlockAndProcess createEmptyGrid domino 0 0 0 = Inr r"
    by blast
  from reachable_place [OF reachable_empty can_created_domino r]
  show ?thesis by (simp add: afterDomino_def r)
qed

text \<open>
  The invariant at the board reached by placing a domino on the empty board, at a
  stamped cell and at an empty one.
\<close>

theorem owner_iff_filled_witness:
  "reachable afterDomino \<and> (0::nat) < 6 \<and> (2::nat) < 6 \<and>
   status (afterDomino ! 0 ! 0) = Filled \<and> blockId (afterDomino ! 0 ! 0) \<noteq> None \<and>
   status (afterDomino ! 0 ! 2) = Empty \<and> blockId (afterDomino ! 0 ! 2) = None"
proof -
  have a: "(blockId (afterDomino ! 0 ! 0) \<noteq> None) = (status (afterDomino ! 0 ! 0) = Filled)"
    using owner_iff_filled [OF reachable_afterDomino, of 0 0] by simp
  have b: "(blockId (afterDomino ! 0 ! 2) \<noteq> None) = (status (afterDomino ! 0 ! 2) = Filled)"
    using owner_iff_filled [OF reachable_afterDomino, of 2 0] by simp
  show ?thesis
    using a b run_afterDomino reachable_afterDomino by simp
qed

lemma rowZeroBoard_statuses:
  "map (map status) rowZeroBoard =
     [[Filled, Filled, Filled, Filled, Filled, Empty],
      [Empty, Empty, Empty, Empty, Empty, Empty],
      [Empty, Empty, Empty, Empty, Empty, Empty],
      [Empty, Empty, Empty, Empty, Empty, Empty],
      [Empty, Empty, Empty, Empty, Empty, Empty],
      [Empty, Empty, Empty, Empty, Empty, Empty]]"
  by code_simp

lemma less_6_cases: "(y::nat) < 6 \<Longrightarrow> y = 0 \<or> y = 1 \<or> y = 2 \<or> y = 3 \<or> y = 4 \<or> y = 5"
  by arith

lemma rowZeroBoard_status:
  assumes "x < 6" "y < 6"
  shows "status (rowZeroBoard ! y ! x) = (if y = 0 \<and> x < 5 then Filled else Empty)"
proof -
  have "status (rowZeroBoard ! y ! x) = map (map status) rowZeroBoard ! y ! x"
    using assms wf_grid_length [OF wf_rowZeroBoard] wf_grid_row [OF wf_rowZeroBoard, of y]
    by (simp add: GRID_SIZE_def)
  then show ?thesis
    unfolding rowZeroBoard_statuses
    using less_6_cases [OF assms(1)] less_6_cases [OF assms(2)]
    by auto
qed

text \<open>
  The amended claim at the board \<open>rowZeroBoard\<close> with \<open>comboIn = 2\<close>: 350 points.
\<close>

theorem row_zero_scenario_witness:
  "wf_grid rowZeroBoard \<and> cells dot = [\<lparr>coord_x = 0, coord_y = 0\<rparr>] \<and> (0::int) \<le> 2 \<and>
   (100::int) * 2 + 150 \<le> 2 ^ 53 \<and>
   canPlaceBlock rowZeroBoard dot 5 0 = Inr True \<and>
   (\<exists>r. placeBlockAndProcess rowZeroBoard dot 5 0 2 = Inr r \<and>
        linesCleared r = 1 \<and> junkCreated r = 0 \<and> points r = 350 \<and> newCombo r = 3)"
proof -
  have row0: "\<forall>x < 5. status (rowZeroBoard ! 0 ! x) = Filled"
    by (simp add: rowZeroBoard_status)
  have gap: "status (rowZeroBoard ! 0 ! 5) = Empty"
    by (simp add: rowZeroBoard_status)
  have rest: "\<forall>y < 6. 0 < y \<longrightarrow> (\<forall>x < 6. status (rowZeroBoard ! y ! x) = Empty)"
    by (simp add: rowZeroBoard_status)
  have d: "cells dot = [\<lparr>coord_x = 0, coord_y = 0\<rparr>]"
    by (simp add: dot_def)
  from row_zero_scenario [OF wf_rowZeroBoard row0 gap rest d, of 2]
  show ?thesis
    using wf_rowZeroBoard d by simp
qed

text \<open>
  Claim C9 as stated fails: with \<open>comboIn = 1\<close> the same placement scores 250 points,
  not 150.
\<close>

theorem row_zero_points_counterexample:
  "wf_grid rowZeroBoard \<and>
   map (map status) rowZeroBoard =
     [[Filled, Filled, Filled, Filled, Filled, Empty],
      [Empty, Empty, Empty, Empty, Empty, Empty],
      [Empty, Empty, Empty, Empty, Empty, Empty],
      [Empty, Empty, Empty, Empty, Empty, Empty],
      [Empty, Empty, Empty, Empty, Empty, Empty],
      [Empty, Empty, Empty, Empty, Empty, Empty]] \<and>
   cells dot = [\<lparr>coord_x = 0, coord_y = 0\<rparr>] \<and>
   canPlaceBlock rowZeroBoard dot 5 0 = Inr True \<and>
   placeBlockAndProcess rowZeroBoard dot 5 0 1 =
     Inr \<lparr>newGrid = emptyBoard, linesCleared = 1, junkCreated = 0, points = 250, newCombo = 2\<rparr>"
  by code_simp

text \<open>
  Claim C1 at a shape whose identifier is the empty string. The vertical domino is
  placed at \<open>(5,0)\<close> and completes row 0; after stamping, the cleared cell \<open>(5,0)\<close> and
  the cell \<open>(5,1)\<close> below it both carry the owner \<open>''''\<close>. The truthiness test
  \<^verbatim>\<open>if (cell.blockId)\<close> skips the empty string, so that owner is not collected:
  the cell \<open>(5,1)\<close> stays filled, \<open>junkCreated\<close> is \<open>0\<close> and the clear counts as clean
  (150 points, combo 1). The same placement with the identifier \<open>''q''\<close> turns
  \<open>(5,1)\<close> into junk (\<open>junkCreated = 1\<close>, 100 points, combo 0), as the claim says.
\<close>

theorem empty_id_leaves_no_junk:
  "wf_grid rowZeroBoard \<and>
   canPlaceBlock rowZeroBoard (vertical2 []) 5 0 = Inr True \<and>
   map_sum id (\<lambda>stamped. (blockId (stamped ! 0 ! 5), blockId (stamped ! 1 ! 5)))
     (placeCells rowZeroBoard (vertical2 []) (cells (vertical2 [])) 5 0) =
     Inr (Some [], Some []) \<and>
   placeBlockAndProcess rowZeroBoard (vertical2 []) 5 0 0 =
     Inr \<lparr>newGrid =
            replicate 6 emptyCell #
            (replicate 5 emptyCell @
               [\<lparr>cell_id = ''c'', status = Filled, color = Some ''#3b82f6'', blockId = Some []\<rparr>]) #
            replicate 4 (replicate 6 emptyCell),
          linesCleared = 1, junkCreated = 0, points = 150, newCombo = 1\<rparr> \<and>
   placeBlockAndProcess rowZeroBoard (vertical2 ''q'') 5 0 0 =
     Inr \<lparr>newGrid =
            replicate 6 emptyCell #
            (replicate 5 emptyCell @
               [\<lparr>cell_id = ''c'', status = Junk, color = Some ''#475569'', blockId = None\<rparr>]) #
            replicate 4 (replicate 6 emptyCell),
          linesCleared = 1, junkCreated = 1, points = 100, newCombo = 0\<rparr>"
  by code_simp

text \<open>
  Claim C3 as stated, for every \<open>comboIn \<ge> 0\<close>, fails where the double arithmetic of
  the source rounds: with \<open>comboIn = 2^53\<close> the dot that completes row 0 returns
  \<open>newCombo = 2^53\<close>, not \<open>comboIn + 1\<close>, and 900719925474099200 points, not
  \<open>100 + 50 + (newCombo - 1) * 100\<close> for \<open>newCombo = comboIn + 1\<close>.
\<close>

theorem scoring_rounds_counterexample:
  "wf_grid rowZeroBoard \<and>
   canPlaceBlock rowZeroBoard dot 5 0 = Inr True \<and>
   (0::int) \<le> 9007199254740992 \<and>
   placeBlockAndProcess rowZeroBoard dot 5 0 9007199254740992 =
     Inr \<lparr>newGrid = emptyBoard, linesCleared = 1, junkCreated = 0,
          points = 900719925474099200, newCombo = 9007199254740992\<rparr> \<and>
   (9007199254740992::int) \<noteq> 9007199254740992 + 1 \<and>
   (900719925474099200::int) \<noteq> 100 * 1 + 50 * 1 + (9007199254740992 + 1 - 1) * 100"
  by code_simp

lemma wideShape_normalized: "normalized (cells wideShape)"
  by (simp add: normalized_def wideShape_def)

text \<open>
  Claim C6 as stated, for every shape with a non-empty offset list, fails where the
  subtraction of the source rounds. The normalised shape with offsets \<open>(0,0)\<close>,
  \<open>(0,1)\<close> and \<open>(0, 2^53 + 2)\<close> is rotated to \<open>(0,0)\<close>, \<open>(2^53, 0)\<close> and
  \<open>(2^53 + 2, 0)\<close>: the image \<open>(-1 - minX, 0) = (2^53 + 1, 0)\<close> of the offset \<open>(0,1)\<close>
  is no double and is rounded to \<open>(2^53, 0)\<close>. After four rotations the offset
  \<open>(0,1)\<close> has become \<open>(0,2)\<close>.
\<close>

theorem rotate_rounds_counterexample:
  "cells wideShape \<noteq> [] \<and> normalized (cells wideShape) \<and>
   cells (rotateBlockDefinition wideShape) =
     [\<lparr>coord_x = 0, coord_y = 0\<rparr>, \<lparr>coord_x = 9007199254740992, coord_y = 0\<rparr>,
      \<lparr>coord_x = 9007199254740994, coord_y = 0\<rparr>] \<and>
   \<lparr>coord_x = - 1 - (- 9007199254740994), coord_y = 0 - 0\<rparr>
     \<notin> set (cells (rotateBlockDefinition wideShape)) \<and>
   cells ((rotateBlockDefinition ^^ 4) wideShape) =
     [\<lparr>coord_x = 0, coord_y = 0\<rparr>, \<lparr>coord_x = 0, coord_y = 2\<rparr>,
      \<lparr>coord_x = 0, coord_y = 9007199254740994\<rparr>] \<and>
   set (cells ((rotateBlockDefinition ^^ 4) wideShape)) \<noteq> set (cells wideShape)"
proof -
  have r1: "cells (rotateBlockDefinition wideShape) =
     [\<lparr>coord_x = 0, coord_y = 0\<rparr>, \<lparr>coord_x = 9007199254740992, coord_y = 0\<rparr>,
      \<lparr>coord_x = 9007199254740994, coord_y = 0\<rparr>]"
    by code_simp
  have r4: "cells ((rotateBlockDefinition ^^ 4) wideShape) =
     [\<lparr>coord_x = 0, coord_y = 0\<rparr>, \<lparr>coord_x = 0, coord_y = 2\<rparr>,
      \<lparr>coord_x = 0, coord_y = 9007199254740994\<rparr>]"
    by code_simp
  have c: "cells wideShape =
     [\<lparr>coord_x = 0, coord_y = 0\<rparr>, \<lparr>coord_x = 0, coord_y = 1\<rparr>,
      \<lparr>coord_x = 0, coord_y = 9007199254740994\<rparr>]"
    by (simp add: wideShape_def)
  have "\<lparr>coord_x = 0, coord_y = 1\<rparr> \<in> set (cells wideShape)"
    unfolding c by simp
  moreover have "\<lparr>coord_x = 0, coord_y = 1\<rparr> \<notin> set (cells ((rotateBlockDefinition ^^ 4) wideShape))"
    unfolding r4 by simp
  ultimately have ne: "set (cells ((rotateBlockDefinition ^^ 4) wideShape)) \<noteq> set (cells wideShape)"
    by blast
  show ?thesis
    using wideShape_normalized ne
    unfolding r1 r4 by (simp add: c)
qed

lemma read_boardStore: "readGrid (boardStore emptyBoard) 42 = Some emptyBoard"
  by code_simp

lemma run_store_empty_domino:
  "map_sum id fst (placeBlockAndProcess_store (boardStore emptyBoard) 42 domino 0 0 0) =
     Inr (85, 0, 0, 20, 0)"
  by code_simp

text \<open>
  A domino placed on the empty board held by a store of 43 values (36 cells, 6 rows,
  the outer array at address 42): the new board is at address 85, the old store is a
  prefix of the new one, and the stamped cell \<open>(1,0)\<close> is filled with the domino's
  colour and identifier.
\<close>

theorem placement_returns_fresh_board_witness:
  "readGrid (boardStore emptyBoard) 42 = Some emptyBoard \<and> wf_grid emptyBoard \<and>
   canPlaceBlock emptyBoard domino 0 0 = Inr True \<and> (1::nat) < 6 \<and> (0::nat) < 6 \<and>
   (\<exists>r h' zs.
     placeBlockAndProcess emptyBoard domino 0 0 0 = Inr r \<and>
     placeBlockAndProcess_store (boardStore emptyBoard) 42 domino 0 0 0 =
       Inr ((85, 0, 0, 20, 0), h') \<and>
     readGrid h' 85 = Some (newGrid r) \<and>
     h' = boardStore emptyBoard @ zs \<and>
     readGrid h' 42 = Some emptyBoard \<and>
     length (boardStore emptyBoard) = 43 \<and>
     linesCleared r = 0 \<and>
     newGrid r ! 0 ! 1 =
       \<lparr>cell_id = ''c'', status = Filled, color = Some ''#ef4444'', blockId = Some ''d1''\<rparr>)"
proof -
  from placement_returns_fresh_board
    [OF read_boardStore wf_emptyBoard can_empty_domino, of 1 0 0]
  obtain r g' h' zs where
    p: "placeBlockAndProcess emptyBoard domino 0 0 0 = Inr r"
    and s: "placeBlockAndProcess_store (boardStore emptyBoard) 42 domino 0 0 0 =
       Inr ((g', linesCleared r, junkCreated r, points r, newCombo r), h')"
    and rd: "readGrid h' g' = Some (newGrid r)"
    and zs: "h' = boardStore emptyBoard @ zs"
    and old: "readGrid h' 42 = Some emptyBoard"
    and frame: "linesCleared r = 0 \<longrightarrow>
        newGrid r ! 0 ! 1 =
          (if \<exists>c \<in> set (cells domino). 0 + coord_x c = int 1 \<and> 0 + coord_y c = int 0
           then (emptyBoard ! 0 ! 1)\<lparr>status := Filled, color := Some (block_color domino),
                                blockId := Some (block_id domino)\<rparr>
           else emptyBoard ! 0 ! 1)"
    by auto
  from run_store_empty_domino s
  have v: "g' = 85" "linesCleared r = 0" "junkCreated r = 0" "points r = 20" "newCombo r = 0"
    by simp_all
  have cell: "newGrid r ! 0 ! 1 =
       \<lparr>cell_id = ''c'', status = Filled, color = Some ''#ef4444'', blockId = Some ''d1''\<rparr>"
    using frame v(2) by (simp add: domino_def emptyBoard_def emptyCell_def)
  have len: "length (boardStore emptyBoard) = 43"
    by code_simp
  show ?thesis
    using p s rd zs old v cell len read_boardStore wf_emptyBoard can_empty_domino
    by (intro conjI exI [of _ r] exI [of _ h'] exI [of _ zs]) simp_all
qed

end
